theory Spec2Isabelle
  imports Main
begin

section \<open>Python values of the schema document\<close>

text \<open>
  The schema is a YAML document read with \<^verbatim>\<open>yaml.safe_load\<close>. The literals of a
  \<^verbatim>\<open>range\<close>, an \<^verbatim>\<open>allowed_value\<close> or a \<^verbatim>\<open>not_allowed_value\<close> list are Python
  scalars. A float literal is kept opaque: it is identified by its Python rendering.
\<close>

datatype lit = LStr string | LInt int | LBool bool | LFloat string | LNone

text \<open>\<^verbatim>\<open>isinstance(x, str)\<close>\<close>

fun isinstance_str :: "lit \<Rightarrow> bool" where
  "isinstance_str (LStr s) = True"
| "isinstance_str x = False"

text \<open>Python's \<^verbatim>\<open>str\<close> of a natural number and of an integer (decimal digits).\<close>

fun str_nat :: "nat \<Rightarrow> string" where
  "str_nat n = (if n < 10 then [''0123456789'' ! n]
                else str_nat (n div 10) @ [''0123456789'' ! (n mod 10)])"

declare str_nat.simps [simp del]

definition str_int :: "int \<Rightarrow> string" where
  "str_int i = (if i < 0 then ''-'' @ str_nat (nat (- i)) else str_nat (nat i))"

fun str_lit :: "lit \<Rightarrow> string" where
  "str_lit (LStr s) = s"
| "str_lit (LInt i) = str_int i"
| "str_lit (LBool b) = (if b then ''True'' else ''False'')"
| "str_lit (LFloat r) = r"
| "str_lit LNone = ''None''"

text \<open>The single quote character of the f-strings \<^verbatim>\<open>'{alias}'\<close> and \<^verbatim>\<open>'{pattern}'\<close>.\<close>

definition quoted :: "string \<Rightarrow> string" where
  "quoted s = [CHR 0x27] @ s @ [CHR 0x27]"

text \<open>\<^verbatim>\<open>sep.join(parts)\<close>\<close>

fun py_join :: "string \<Rightarrow> string list \<Rightarrow> string" where
  "py_join sep [] = []"
| "py_join sep [x] = x"
| "py_join sep (x # y # zs) = x @ sep @ py_join sep (y # zs)"

section \<open>Exceptions\<close>

text \<open>
  What the program raises are values of the model. \<open>ValueError\<close> is raised by
  \<^verbatim>\<open>_load_schema\<close> and \<open>AttributeError\<close> by Python when \<^verbatim>\<open>get\<close> is called on a value
  that is no mapping; both keep their message. \<open>TypeError\<close>, \<open>ComputeError\<close> and
  \<open>InvalidOperationError\<close> are what Polars raises when it rejects an expression (a list
  of literals that mixes text and numbers, a comparison or a membership test between
  text and numbers, an invalid pattern); their messages are Polars' and are left out.
  \<open>NotCovered\<close> is raised by no program: a backend instance of this theory gives it where
  it does not describe Polars.
\<close>

datatype py_exception =
    ValueError string | AttributeError string
  | TypeError | ComputeError | InvalidOperationError
  | NotCovered

section \<open>Column schema\<close>

text \<open>
  One entry of the \<^verbatim>\<open>schema\<close> mapping: the properties of a canonical column. A key
  that the YAML entry does not have is \<open>None\<close>, so that \<^verbatim>\<open>props.get(key, default)\<close> and
  \<^verbatim>\<open>key in props\<close> are case distinctions. The schema is a Python dict: its items are
  kept in insertion order, and its keys are distinct.
\<close>

record props =
  prop_type :: "string option"
  prop_aliases :: "string list option"
  prop_optional :: "bool option"
  prop_range :: "(lit \<times> lit) option"
  prop_allowed_value :: "lit list option"
  prop_not_allowed_value :: "lit list option"
  prop_regex :: "string option"

type_synonym schema = "(string \<times> props) list"

section \<open>Tables\<close>

text \<open>
  The physical types of Polars that the program names, and a constructor for every other
  one (carrying its whole rendering). A physical type with parameters (\<^verbatim>\<open>Datetime\<close>,
  \<^verbatim>\<open>Duration\<close>, \<^verbatim>\<open>Decimal\<close>, \<^verbatim>\<open>Enum\<close>, \<^verbatim>\<open>Categorical\<close>) carries the text that
  Polars prints after the name of its class, brackets included, for example
  \<^verbatim>\<open>(time_unit='us', time_zone=None)\<close>; the text is empty for the class itself, and where
  Polars prints no parameters.
\<close>

datatype pl_dtype =
    pl_String | pl_Categorical string | pl_Enum string
  | pl_Float32 | pl_Float64 | pl_Decimal string
  | pl_Int8 | pl_Int16 | pl_Int32 | pl_Int64
  | pl_UInt8 | pl_UInt16 | pl_UInt32 | pl_UInt64
  | pl_Date | pl_Datetime string | pl_Duration string | pl_Time
  | pl_Boolean
  | pl_Other string

text \<open>The rendering of a physical type in an f-string.\<close>

fun dtype_str :: "pl_dtype \<Rightarrow> string" where
  "dtype_str pl_String = ''String''"
| "dtype_str (pl_Categorical ps) = ''Categorical'' @ ps"
| "dtype_str (pl_Enum ps) = ''Enum'' @ ps"
| "dtype_str pl_Float32 = ''Float32''"
| "dtype_str pl_Float64 = ''Float64''"
| "dtype_str (pl_Decimal ps) = ''Decimal'' @ ps"
| "dtype_str pl_Int8 = ''Int8''"
| "dtype_str pl_Int16 = ''Int16''"
| "dtype_str pl_Int32 = ''Int32''"
| "dtype_str pl_Int64 = ''Int64''"
| "dtype_str pl_UInt8 = ''UInt8''"
| "dtype_str pl_UInt16 = ''UInt16''"
| "dtype_str pl_UInt32 = ''UInt32''"
| "dtype_str pl_UInt64 = ''UInt64''"
| "dtype_str pl_Date = ''Date''"
| "dtype_str (pl_Datetime ps) = ''Datetime'' @ ps"
| "dtype_str (pl_Duration ps) = ''Duration'' @ ps"
| "dtype_str pl_Time = ''Time''"
| "dtype_str pl_Boolean = ''Boolean''"
| "dtype_str (pl_Other n) = n"

text \<open>
  The program compares the physical type of a column only with classes
  (\<^verbatim>\<open>current_type != target_pl_type\<close>, \<^verbatim>\<open>actual_dtype not in valid_types\<close>,
  \<^verbatim>\<open>actual_dtype == pl.String\<close>), and Polars takes a physical type as equal to the class
  it is an instance of, whatever its parameters. \<open>dtype_class\<close> is that class, written as
  the physical type without parameters.
\<close>

fun dtype_class :: "pl_dtype \<Rightarrow> pl_dtype" where
  "dtype_class (pl_Categorical ps) = pl_Categorical []"
| "dtype_class (pl_Enum ps) = pl_Enum []"
| "dtype_class (pl_Decimal ps) = pl_Decimal []"
| "dtype_class (pl_Datetime ps) = pl_Datetime []"
| "dtype_class (pl_Duration ps) = pl_Duration []"
| "dtype_class d = d"

text \<open>
  A column (\<^verbatim>\<open>pl.Series\<close>) has a physical type and one cell per row; a null cell is
  \<open>None\<close>. A table (\<^verbatim>\<open>pl.DataFrame\<close>) is the list of its named columns, in order. Polars
  keeps the column names distinct and all columns of the same length.
\<close>

record 'v series =
  dtype :: pl_dtype
  cells :: "'v option list"

type_synonym 'v dataframe = "(string \<times> 'v series) list"

definition columns :: "'v dataframe \<Rightarrow> string list" where
  "columns df = map fst df"

text \<open>\<^verbatim>\<open>len(df)\<close>: the number of rows; \<^verbatim>\<open>df.is_empty()\<close> is \<open>height df = 0\<close>.\<close>

fun height :: "'v dataframe \<Rightarrow> nat" where
  "height [] = 0"
| "height ((n, s) # rest) = length (cells s)"

definition rectangular :: "'v dataframe \<Rightarrow> bool" where
  "rectangular df = list_all (\<lambda>(n, s). length (cells s) = height df) df"

definition null_count :: "'v series \<Rightarrow> nat" where
  "null_count s = length (filter (\<lambda>v. v = None) (cells s))"

text \<open>
  \<^verbatim>\<open>df.rename(mapping)\<close>: the keys of the mapping are old names, unmapped columns pass
  through.
\<close>

definition df_rename :: "(string \<times> string) list \<Rightarrow> 'v dataframe \<Rightarrow> 'v dataframe" where
  "df_rename mapping df =
     map (\<lambda>(n, s). (case map_of mapping n of Some n' \<Rightarrow> n' | None \<Rightarrow> n, s)) df"

text \<open>
  The columns whose name differs between a table and its harmonized version, as pairs of
  the old and the new name: the renames that were applied to the table.
\<close>

definition renamed_columns :: "'v dataframe \<Rightarrow> 'v dataframe \<Rightarrow> (string \<times> string) list" where
  "renamed_columns df df' = filter (\<lambda>(old, new). old \<noteq> new) (zip (columns df) (columns df'))"

text \<open>
  The operations of Polars are parameters of the model. An operation of an expression
  (the comparison of the column with a literal, membership in a literal list, the cast to
  text, the regular-expression search) is given the physical type of the column and the
  literals, and either raises or gives the function that Polars applies to each non-null
  cell; the result at a cell may itself be null (\<open>None\<close>). What Polars does with a null
  cell is fixed below. The other parameters are the non-strict cast of a column to a
  physical type, \<^verbatim>\<open>Series.unique\<close> (whose order Polars leaves open, and which is \<open>None\<close>
  when it raises), and Python's \<^verbatim>\<open>str\<close> of a cell.
\<close>

record 'v polars =
  pl_lt :: "pl_dtype \<Rightarrow> lit \<Rightarrow> py_exception + ('v \<Rightarrow> bool option)"
  pl_gt :: "pl_dtype \<Rightarrow> lit \<Rightarrow> py_exception + ('v \<Rightarrow> bool option)"
  pl_is_in :: "pl_dtype \<Rightarrow> lit list \<Rightarrow> py_exception + ('v \<Rightarrow> bool option)"
  pl_cast_string :: "pl_dtype \<Rightarrow> py_exception + ('v \<Rightarrow> 'v option)"
  pl_str_contains :: "string \<Rightarrow> py_exception + ('v \<Rightarrow> bool option)"
  pl_cast :: "pl_dtype \<Rightarrow> 'v series \<Rightarrow> 'v series"
  pl_unique :: "'v option list \<Rightarrow> 'v option list option"
  py_str :: "'v \<Rightarrow> string"

text \<open>\<^verbatim>\<open>df.with_columns(pl.col(col).cast(target, strict=False))\<close>\<close>

definition with_columns_cast :: "'v polars \<Rightarrow> string \<Rightarrow> pl_dtype \<Rightarrow> 'v dataframe \<Rightarrow> 'v dataframe" where
  "with_columns_cast P col target df =
     map (\<lambda>(n, s). if n = col then (n, pl_cast P target s) else (n, s)) df"

section \<open>DataHarmonizer\<close>

record harm_entry =
  action :: string
  column :: string
  details :: string

definition type_map :: "string \<Rightarrow> pl_dtype option" where
  "type_map = map_of
     [(''string'', pl_String), (''float'', pl_Float64), (''integer'', pl_Int64),
      (''date'', pl_Date), (''boolean'', pl_Boolean)]"

text \<open>\<^verbatim>\<open>rename_map[key] = v\<close> on a dict kept as its list of items.\<close>

fun dict_set :: "('k \<times> 'a) list \<Rightarrow> 'k \<Rightarrow> 'a \<Rightarrow> ('k \<times> 'a) list" where
  "dict_set [] k v = [(k, v)]"
| "dict_set ((k', v') # d) k v = (if k' = k then (k, v) # d else (k', v') # dict_set d k v)"

text \<open>
  The inner loop \<^verbatim>\<open>for alias in aliases: if alias in df_cols: ...; break\<close>: the alias
  at which the loop breaks, if any.
\<close>

fun find_alias :: "string list \<Rightarrow> string list \<Rightarrow> string option" where
  "find_alias df_cols [] = None"
| "find_alias df_cols (a # rest) = (if a \<in> set df_cols then Some a else find_alias df_cols rest)"

text \<open>The body of the first loop, on the state \<open>(rename_map, report_logs)\<close>.\<close>

definition rename_step ::
  "string list \<Rightarrow> (string \<times> string) list \<times> harm_entry list \<Rightarrow> string \<times> props
     \<Rightarrow> (string \<times> string) list \<times> harm_entry list" where
  "rename_step df_cols st item =
     (case st of (rename_map, report_logs) \<Rightarrow>
      case item of (col, props) \<Rightarrow>
        if col \<notin> set df_cols then
          (case find_alias df_cols (case prop_aliases props of None \<Rightarrow> [] | Some al \<Rightarrow> al) of
             Some a \<Rightarrow>
               (dict_set rename_map a col,
                report_logs @
                  [\<lparr>action = ''Rename'', column = col, details = ''Renamed from '' @ quoted a\<rparr>])
           | None \<Rightarrow> (rename_map, report_logs))
        else (rename_map, report_logs))"

definition resolve_renames :: "schema \<Rightarrow> string list \<Rightarrow> (string \<times> string) list \<times> harm_entry list" where
  "resolve_renames sch df_cols = foldl (rename_step df_cols) ([], []) sch"

text \<open>Step 1 of \<^verbatim>\<open>harmonize\<close>: column renaming based on aliases.\<close>

definition rename_columns :: "schema \<Rightarrow> 'v dataframe \<Rightarrow> 'v dataframe \<times> harm_entry list" where
  "rename_columns sch df =
     (case resolve_renames sch (columns df) of (rename_map, report_logs) \<Rightarrow>
        (if rename_map \<noteq> [] then df_rename rename_map df else df, report_logs))"

text \<open>The body of the second loop, on the state \<open>(df, report_logs)\<close>.\<close>

definition cast_step ::
  "'v polars \<Rightarrow> 'v dataframe \<times> harm_entry list \<Rightarrow> string \<times> props
     \<Rightarrow> 'v dataframe \<times> harm_entry list" where
  "cast_step P st item =
     (case st of (df, report_logs) \<Rightarrow>
      case item of (col, props) \<Rightarrow>
       (case map_of df col of
          None \<Rightarrow> (df, report_logs)
        | Some s \<Rightarrow>
           (case prop_type props of
              None \<Rightarrow> (df, report_logs)
            | Some target_type_str \<Rightarrow>
               (case type_map target_type_str of
                  None \<Rightarrow> (df, report_logs)
                | Some target_pl_type \<Rightarrow>
                    let current_type = dtype s in
                    if dtype_class current_type \<noteq> target_pl_type then
                      let nulls_before = null_count s;
                          df' = with_columns_cast P col target_pl_type df;
                          nulls_after = (case map_of df' col of Some s' \<Rightarrow> null_count s' | None \<Rightarrow> 0);
                          failed_rows = int nulls_after - int nulls_before
                      in if failed_rows > 0 then
                           (df', report_logs @
                              [\<lparr>action = ''Cast Fail'', column = col,
                                details = ''Failed to cast '' @ str_int failed_rows @
                                          '' rows to '' @ target_type_str\<rparr>])
                         else
                           (df', report_logs @
                              [\<lparr>action = ''Cast Success'', column = col,
                                details = ''Cast from '' @ dtype_str current_type @
                                          '' to '' @ target_type_str\<rparr>])
                    else (df, report_logs)))))"

text \<open>Step 2 of \<^verbatim>\<open>harmonize\<close>: type casting, on the renamed table.\<close>

definition cast_columns ::
  "'v polars \<Rightarrow> schema \<Rightarrow> 'v dataframe \<times> harm_entry list \<Rightarrow> 'v dataframe \<times> harm_entry list" where
  "cast_columns P sch st = foldl (cast_step P) st sch"

definition harmonize :: "'v polars \<Rightarrow> schema \<Rightarrow> 'v dataframe \<Rightarrow> 'v dataframe \<times> harm_entry list" where
  "harmonize P sch df = cast_columns P sch (rename_columns sch df)"

section \<open>Loading the schema document\<close>

text \<open>
  Both classes read the schema in their constructor:
  \<^verbatim>\<open>self.schema = self._load_schema(schema_path).get("schema", {})\<close>.
  The file system and the YAML parser are outside the program. The model starts from what
  the body of the \<^verbatim>\<open>try\<close> block does: it raises an exception \<open>e\<close> (given by its
  message \<^verbatim>\<open>str(e)\<close>), or it returns the parsed document, which is a mapping or a value
  of another Python type (given by the name of that type: \<^verbatim>\<open>NoneType\<close> for an empty
  file, \<^verbatim>\<open>list\<close>, \<^verbatim>\<open>str\<close>, ...). The values a mapping holds under its top-level keys
  are taken to be column schemas.
\<close>

datatype document = YamlMapping "(string \<times> schema) list" | YamlOther string

datatype read_result = Raised string | Loaded document

definition DataHarmonizer_load_schema :: "read_result \<Rightarrow> py_exception + document" where
  "DataHarmonizer_load_schema r =
     (case r of
        Raised e \<Rightarrow> Inl (ValueError (''Failed to load schema: '' @ e))
      | Loaded d \<Rightarrow> Inr d)"

definition DataValidator_load_schema :: "read_result \<Rightarrow> py_exception + document" where
  "DataValidator_load_schema r =
     (case r of
        Raised e \<Rightarrow> Inl (ValueError (''Failed to load schema: '' @ e))
      | Loaded d \<Rightarrow> Inr d)"

text \<open>\<^verbatim>\<open>document.get("schema", {})\<close>; a value that is no mapping has no \<^verbatim>\<open>get\<close>.\<close>

definition get_schema :: "document \<Rightarrow> py_exception + schema" where
  "get_schema d =
     (case d of
        YamlMapping m \<Rightarrow> Inr (case map_of m ''schema'' of Some sch \<Rightarrow> sch | None \<Rightarrow> [])
      | YamlOther tyname \<Rightarrow>
          Inl (AttributeError (quoted tyname @ '' object has no attribute '' @ quoted ''get'')))"

definition DataHarmonizer_init :: "read_result \<Rightarrow> py_exception + schema" where
  "DataHarmonizer_init r =
     (case DataHarmonizer_load_schema r of Inl e \<Rightarrow> Inl e | Inr d \<Rightarrow> get_schema d)"

definition DataValidator_init :: "read_result \<Rightarrow> py_exception + schema" where
  "DataValidator_init r =
     (case DataValidator_load_schema r of Inl e \<Rightarrow> Inl e | Inr d \<Rightarrow> get_schema d)"

section \<open>DataValidator\<close>

record finding =
  variable :: string
  check :: string
  description :: string
  examples :: string

definition polars_dtypes :: "string \<Rightarrow> pl_dtype list option" where
  "polars_dtypes = map_of
     [(''string'', [pl_String, pl_Categorical [], pl_Enum []]),
      (''float'', [pl_Float32, pl_Float64, pl_Decimal []]),
      (''integer'', [pl_Int8, pl_Int16, pl_Int32, pl_Int64, pl_UInt8, pl_UInt16, pl_UInt32, pl_UInt64]),
      (''date'', [pl_Date, pl_Datetime [], pl_Duration [], pl_Time]),
      (''boolean'', [pl_Boolean])]"

subsection \<open>Expressions over one column\<close>

text \<open>
  A Polars expression over \<^verbatim>\<open>pl.col(col)\<close> either raises or is evaluated row by row. An
  element-wise operation (a comparison, \<^verbatim>\<open>is_in\<close> with its default \<^verbatim>\<open>nulls_equal=False\<close>,
  \<^verbatim>\<open>cast\<close>, \<^verbatim>\<open>str.contains\<close>) gives null at a null cell; \<^verbatim>\<open>~\<close> of null is null;
  \<^verbatim>\<open>|\<close> is the three-valued disjunction; and \<^verbatim>\<open>df.filter\<close> keeps the rows whose
  predicate is true, dropping those where it is false or null. These are the semantics of
  Polars, which is not part of the program; the model takes them as given.
\<close>

definition elementwise :: "('v \<Rightarrow> 'b option) \<Rightarrow> 'v option \<Rightarrow> 'b option" where
  "elementwise f v = Option.bind v f"

definition expr_lt :: "'v polars \<Rightarrow> pl_dtype \<Rightarrow> lit \<Rightarrow> py_exception + ('v option \<Rightarrow> bool option)" where
  "expr_lt P dt low = (case pl_lt P dt low of Inl e \<Rightarrow> Inl e | Inr f \<Rightarrow> Inr (elementwise f))"

definition expr_gt :: "'v polars \<Rightarrow> pl_dtype \<Rightarrow> lit \<Rightarrow> py_exception + ('v option \<Rightarrow> bool option)" where
  "expr_gt P dt high = (case pl_gt P dt high of Inl e \<Rightarrow> Inl e | Inr f \<Rightarrow> Inr (elementwise f))"

fun expr_or :: "bool option \<Rightarrow> bool option \<Rightarrow> bool option" where
  "expr_or (Some True) b = Some True"
| "expr_or a (Some True) = Some True"
| "expr_or (Some False) (Some False) = Some False"
| "expr_or a b = None"

definition expr_not :: "bool option \<Rightarrow> bool option" where
  "expr_not b = map_option Not b"

definition expr_is_in ::
  "'v polars \<Rightarrow> pl_dtype \<Rightarrow> lit list \<Rightarrow> py_exception + ('v option \<Rightarrow> bool option)" where
  "expr_is_in P dt ls = (case pl_is_in P dt ls of Inl e \<Rightarrow> Inl e | Inr f \<Rightarrow> Inr (elementwise f))"

definition expr_cast_string :: "'v polars \<Rightarrow> pl_dtype \<Rightarrow> py_exception + ('v option \<Rightarrow> 'v option)" where
  "expr_cast_string P dt = (case pl_cast_string P dt of Inl e \<Rightarrow> Inl e | Inr f \<Rightarrow> Inr (elementwise f))"

definition expr_str_contains :: "'v polars \<Rightarrow> string \<Rightarrow> py_exception + ('v option \<Rightarrow> bool option)" where
  "expr_str_contains P pat = (case pl_str_contains P pat of Inl e \<Rightarrow> Inl e | Inr f \<Rightarrow> Inr (elementwise f))"

text \<open>
  \<^verbatim>\<open>df.filter(predicate)\<close>: the predicate over the column gives one truth value per row
  (the mask), and every column keeps the cells of the rows where it is true.
\<close>

definition mask_of :: "('v option \<Rightarrow> bool option) \<Rightarrow> 'v series \<Rightarrow> bool list" where
  "mask_of predicate s = map (\<lambda>v. predicate v = Some True) (cells s)"

definition select_rows :: "bool list \<Rightarrow> 'a list \<Rightarrow> 'a list" where
  "select_rows keep xs = map snd (filter fst (zip keep xs))"

definition df_filter :: "bool list \<Rightarrow> 'v dataframe \<Rightarrow> 'v dataframe" where
  "df_filter keep df = map (\<lambda>(n, s). (n, s\<lparr>cells := select_rows keep (cells s)\<rparr>)) df"

text \<open>
  The predicates that \<^verbatim>\<open>validate\<close> passes to \<^verbatim>\<open>df.filter\<close>, as functions of the cell of
  the checked column, or the exception that Polars raises for them:
  \<^verbatim>\<open>(col_expr < low) | (col_expr > high)\<close>,
  \<^verbatim>\<open>~check_expr.is_in(allowed)\<close>, \<^verbatim>\<open>check_expr.is_in(forbidden)\<close> and
  \<^verbatim>\<open>~col_expr.str.contains(pattern)\<close>.
  The choice of \<^verbatim>\<open>check_expr\<close> has the same text in the whitelist and in the blacklist
  block: \<^verbatim>\<open>col_expr.cast(pl.String)\<close> when the list has a \<^verbatim>\<open>str\<close> and the column is not
  of type \<^verbatim>\<open>pl.String\<close>, and \<^verbatim>\<open>col_expr\<close> otherwise. It is given with the physical
  type of its values, which is the type that \<^verbatim>\<open>is_in\<close> then sees.
\<close>

definition range_expr ::
  "'v polars \<Rightarrow> pl_dtype \<Rightarrow> lit \<Rightarrow> lit \<Rightarrow> py_exception + ('v option \<Rightarrow> bool option)" where
  "range_expr P actual_dtype low high =
     (case expr_lt P actual_dtype low of
        Inl e \<Rightarrow> Inl e
      | Inr too_low \<Rightarrow>
         (case expr_gt P actual_dtype high of
            Inl e \<Rightarrow> Inl e
          | Inr too_high \<Rightarrow> Inr (\<lambda>v. expr_or (too_low v) (too_high v))))"

definition check_expr ::
  "'v polars \<Rightarrow> lit list \<Rightarrow> pl_dtype \<Rightarrow> py_exception + (('v option \<Rightarrow> 'v option) \<times> pl_dtype)" where
  "check_expr P lits actual_dtype =
     (if list_ex isinstance_str lits \<and> actual_dtype \<noteq> pl_String
      then (case expr_cast_string P actual_dtype of
              Inl e \<Rightarrow> Inl e
            | Inr as_text \<Rightarrow> Inr (as_text, pl_String))
      else Inr (\<lambda>v. v, actual_dtype))"

definition allowed_expr ::
  "'v polars \<Rightarrow> lit list \<Rightarrow> pl_dtype \<Rightarrow> py_exception + ('v option \<Rightarrow> bool option)" where
  "allowed_expr P allowed actual_dtype =
     (case check_expr P allowed actual_dtype of
        Inl e \<Rightarrow> Inl e
      | Inr (compared, compared_dtype) \<Rightarrow>
         (case expr_is_in P compared_dtype allowed of
            Inl e \<Rightarrow> Inl e
          | Inr is_member \<Rightarrow> Inr (\<lambda>v. expr_not (is_member (compared v)))))"

definition forbidden_expr ::
  "'v polars \<Rightarrow> lit list \<Rightarrow> pl_dtype \<Rightarrow> py_exception + ('v option \<Rightarrow> bool option)" where
  "forbidden_expr P forbidden actual_dtype =
     (case check_expr P forbidden actual_dtype of
        Inl e \<Rightarrow> Inl e
      | Inr (compared, compared_dtype) \<Rightarrow>
         (case expr_is_in P compared_dtype forbidden of
            Inl e \<Rightarrow> Inl e
          | Inr is_member \<Rightarrow> Inr (\<lambda>v. is_member (compared v))))"

definition regex_expr :: "'v polars \<Rightarrow> string \<Rightarrow> py_exception + ('v option \<Rightarrow> bool option)" where
  "regex_expr P pattern =
     (case expr_str_contains P pattern of
        Inl e \<Rightarrow> Inl e
      | Inr found \<Rightarrow> Inr (\<lambda>v. expr_not (found v)))"

subsection \<open>The example helper\<close>

text \<open>
  \<^verbatim>\<open>_get_example_msg\<close>. The body of its \<^verbatim>\<open>try\<close> block raises when the column is not in
  the table or when \<^verbatim>\<open>unique\<close> raises; the handler returns \<^verbatim>\<open>"N/A"\<close>.
\<close>

definition get_example_msg :: "'v polars \<Rightarrow> 'v dataframe \<Rightarrow> string \<Rightarrow> string" where
  "get_example_msg P invalid_df col_name =
     (case map_of invalid_df col_name of
        None \<Rightarrow> ''N/A''
      | Some s \<Rightarrow>
         (case pl_unique P (cells s) of
            None \<Rightarrow> ''N/A''
          | Some u \<Rightarrow>
              let invalid_vals = List.map_filter (\<lambda>v. v) u;
                  count = length invalid_vals;
                  exs = take 3 invalid_vals;
                  example_str = py_join '', '' (map (py_str P) exs)
              in if count > 3 then example_str @ '', ... (+'' @ str_nat (count - 3) @ '' more)''
                 else example_str))"

subsection \<open>The checks of one column\<close>

text \<open>
  Each check gives the findings it appends to \<^verbatim>\<open>errors\<close>, or the exception that ends
  the run. The type check compares physical types only and does not raise.
\<close>

definition check_type :: "string \<Rightarrow> props \<Rightarrow> 'v series \<Rightarrow> finding list" where
  "check_type col props s =
     (case prop_type props of
        None \<Rightarrow> []
      | Some expected_key \<Rightarrow>
         (case polars_dtypes expected_key of
            None \<Rightarrow> []
          | Some valid_types \<Rightarrow>
              if dtype_class (dtype s) \<notin> set valid_types then
                [\<lparr>variable = col, check = ''Type'',
                  description = ''Expected '' @ expected_key @ '', got '' @ dtype_str (dtype s),
                  examples = ''N/A''\<rparr>]
              else []))"

text \<open>The range check.\<close>

definition check_range ::
  "'v polars \<Rightarrow> 'v dataframe \<Rightarrow> string \<Rightarrow> props \<Rightarrow> 'v series \<Rightarrow> py_exception + finding list" where
  "check_range P df col props s =
     (case prop_range props of
        None \<Rightarrow> Inr []
      | Some (low, high) \<Rightarrow>
         (case range_expr P (dtype s) low high of
            Inl e \<Rightarrow> Inl e
          | Inr predicate \<Rightarrow>
              let invalid = df_filter (mask_of predicate s) df
              in if height invalid \<noteq> 0 then
                   Inr [\<lparr>variable = col, check = ''Range'',
                         description = str_nat (height invalid) @ '' rows outside ['' @ str_lit low @
                                       '', '' @ str_lit high @ '']'',
                         examples = get_example_msg P invalid col\<rparr>]
                 else Inr []))"

text \<open>Allowed values (whitelist).\<close>

definition check_allowed ::
  "'v polars \<Rightarrow> 'v dataframe \<Rightarrow> string \<Rightarrow> props \<Rightarrow> 'v series \<Rightarrow> py_exception + finding list" where
  "check_allowed P df col props s =
     (case prop_allowed_value props of
        None \<Rightarrow> Inr []
      | Some allowed \<Rightarrow>
         (case allowed_expr P allowed (dtype s) of
            Inl e \<Rightarrow> Inl e
          | Inr predicate \<Rightarrow>
              let invalid = df_filter (mask_of predicate s) df
              in if height invalid \<noteq> 0 then
                   Inr [\<lparr>variable = col, check = ''Allowed Values'',
                         description = str_nat (height invalid) @ '' rows have invalid values'',
                         examples = get_example_msg P invalid col\<rparr>]
                 else Inr []))"

text \<open>Not allowed values (blacklist).\<close>

definition check_forbidden ::
  "'v polars \<Rightarrow> 'v dataframe \<Rightarrow> string \<Rightarrow> props \<Rightarrow> 'v series \<Rightarrow> py_exception + finding list" where
  "check_forbidden P df col props s =
     (case prop_not_allowed_value props of
        None \<Rightarrow> Inr []
      | Some forbidden \<Rightarrow>
         (case forbidden_expr P forbidden (dtype s) of
            Inl e \<Rightarrow> Inl e
          | Inr predicate \<Rightarrow>
              let invalid = df_filter (mask_of predicate s) df
              in if height invalid \<noteq> 0 then
                   Inr [\<lparr>variable = col, check = ''Forbidden Values'',
                         description = str_nat (height invalid) @ '' rows found in blacklist'',
                         examples = get_example_msg P invalid col\<rparr>]
                 else Inr []))"

text \<open>The regex check. For a column that is not of type \<^verbatim>\<open>pl.String\<close> no expression is built.\<close>

definition check_regex ::
  "'v polars \<Rightarrow> 'v dataframe \<Rightarrow> string \<Rightarrow> props \<Rightarrow> 'v series \<Rightarrow> py_exception + finding list" where
  "check_regex P df col props s =
     (case prop_regex props of
        None \<Rightarrow> Inr []
      | Some pattern \<Rightarrow>
          if dtype s = pl_String then
            (case regex_expr P pattern of
               Inl e \<Rightarrow> Inl e
             | Inr predicate \<Rightarrow>
                 let invalid = df_filter (mask_of predicate s) df
                 in if height invalid \<noteq> 0 then
                      Inr [\<lparr>variable = col, check = ''Regex'',
                            description = str_nat (height invalid) @ '' rows mismatch pattern '' @
                                          quoted pattern,
                            examples = get_example_msg P invalid col\<rparr>]
                    else Inr [])
          else Inr [])"

text \<open>
  The body of the loop of \<^verbatim>\<open>validate\<close>: the findings that one schema item appends to
  \<^verbatim>\<open>errors\<close>, or the exception of the first check that raises. The first branch ends
  with \<^verbatim>\<open>continue\<close>.
\<close>

definition validate_column ::
  "'v polars \<Rightarrow> 'v dataframe \<Rightarrow> string \<times> props \<Rightarrow> py_exception + finding list" where
  "validate_column P df item =
     (case item of (col, props) \<Rightarrow>
       (case map_of df col of
          None \<Rightarrow>
            if \<not> (case prop_optional props of None \<Rightarrow> False | Some b \<Rightarrow> b) then
              Inr [\<lparr>variable = col, check = ''Existence'', description = ''Column not found'',
                    examples = ''N/A''\<rparr>]
            else Inr []
        | Some s \<Rightarrow>
           (case check_range P df col props s of
              Inl e \<Rightarrow> Inl e
            | Inr range_findings \<Rightarrow>
               (case check_allowed P df col props s of
                  Inl e \<Rightarrow> Inl e
                | Inr allowed_findings \<Rightarrow>
                   (case check_forbidden P df col props s of
                      Inl e \<Rightarrow> Inl e
                    | Inr forbidden_findings \<Rightarrow>
                       (case check_regex P df col props s of
                          Inl e \<Rightarrow> Inl e
                        | Inr regex_findings \<Rightarrow>
                            Inr (check_type col props s @ range_findings @ allowed_findings @
                                 forbidden_findings @ regex_findings)))))))"

text \<open>
  The loop of \<^verbatim>\<open>validate\<close> over the schema items, with the list \<^verbatim>\<open>errors\<close> as state.
  An exception ends the run: no report is returned.
\<close>

fun validate_loop ::
  "'v polars \<Rightarrow> 'v dataframe \<Rightarrow> schema \<Rightarrow> finding list \<Rightarrow> py_exception + finding list" where
  "validate_loop P df [] errors = Inr errors"
| "validate_loop P df (item # rest) errors =
     (case validate_column P df item of
        Inl e \<Rightarrow> Inl e
      | Inr findings \<Rightarrow> validate_loop P df rest (errors @ findings))"

definition validate :: "'v polars \<Rightarrow> schema \<Rightarrow> 'v dataframe \<Rightarrow> py_exception + finding list" where
  "validate P sch df = validate_loop P df sch []"

section \<open>A backend instance: Int64 and String columns\<close>

text \<open>
  The theorems below hold for every backend. To run the model on concrete tables, the
  following instance describes Polars on columns of type \<open>Int64\<close> and \<open>String\<close>, with
  integer and text literals:
  \<^item> a list of literals that mixes text and integers raises \<open>TypeError\<close>; membership of
    integer cells in an integer list and of text cells in a text list is by equality; an
    integer list on a text column and a text list on an integer column raise
    \<open>InvalidOperationError\<close>;
  \<^item> an \<open>Int64\<close> column is compared with integer bounds as integers; a text column with
    integer bounds, and an integer column with text bounds, raise \<open>ComputeError\<close>;
  \<^item> the cast of an integer to text is its decimal rendering; the non-strict cast of a
    text to \<open>Int64\<close> is the decimal parse, with an optional sign, and null when the text is
    no integer or the integer does not fit 64 bits;
  \<^item> a pattern made of letters, digits and spaces is searched as it stands;
  \<^item> \<^verbatim>\<open>unique\<close> gives integers in ascending order, and texts, for which Polars fixes no
    order, in order of first occurrence.

  Everything else (other literals, other patterns, other column types in an expression)
  gives \<open>NotCovered\<close>; a cast other than the two above is not described by the instance,
  which then keeps the cells.
\<close>

datatype cell = IntCell int | StrCell string

definition digit_of :: "char \<Rightarrow> int option" where
  "digit_of = map_of
     [(CHR ''0'', 0), (CHR ''1'', 1), (CHR ''2'', 2), (CHR ''3'', 3), (CHR ''4'', 4),
      (CHR ''5'', 5), (CHR ''6'', 6), (CHR ''7'', 7), (CHR ''8'', 8), (CHR ''9'', 9)]"

fun parse_digits :: "int \<Rightarrow> string \<Rightarrow> int option" where
  "parse_digits acc [] = Some acc"
| "parse_digits acc (c # cs) =
     (case digit_of c of None \<Rightarrow> None | Some d \<Rightarrow> parse_digits (10 * acc + d) cs)"

fun parse_signed :: "string \<Rightarrow> int option" where
  "parse_signed [] = None"
| "parse_signed (c # cs) =
     (if c = CHR ''-'' then (if cs = [] then None else map_option uminus (parse_digits 0 cs))
      else if c = CHR ''+'' then (if cs = [] then None else parse_digits 0 cs)
      else parse_digits 0 (c # cs))"

definition parse_int :: "string \<Rightarrow> int option" where
  "parse_int t =
     (case parse_signed t of
        None \<Rightarrow> None
      | Some i \<Rightarrow> if - 9223372036854775808 \<le> i \<and> i \<le> 9223372036854775807 then Some i else None)"

fun cell_str :: "cell \<Rightarrow> string" where
  "cell_str (IntCell i) = str_int i"
| "cell_str (StrCell s) = s"

fun is_int_lit :: "lit \<Rightarrow> bool" where
  "is_int_lit (LInt i) = True"
| "is_int_lit l = False"

fun cell_lt :: "int \<Rightarrow> cell \<Rightarrow> bool option" where
  "cell_lt bound (IntCell i) = Some (i < bound)"
| "cell_lt bound (StrCell t) = None"

fun cell_gt :: "int \<Rightarrow> cell \<Rightarrow> bool option" where
  "cell_gt bound (IntCell i) = Some (i > bound)"
| "cell_gt bound (StrCell t) = None"

fun compare_with ::
  "(int \<Rightarrow> cell \<Rightarrow> bool option) \<Rightarrow> pl_dtype \<Rightarrow> lit \<Rightarrow> py_exception + (cell \<Rightarrow> bool option)" where
  "compare_with cmp pl_Int64 (LInt bound) = Inr (cmp bound)"
| "compare_with cmp pl_String (LInt bound) = Inl ComputeError"
| "compare_with cmp pl_Int64 (LStr bound) = Inl ComputeError"
| "compare_with cmp dt l = Inl NotCovered"

fun cell_member :: "lit list \<Rightarrow> cell \<Rightarrow> bool option" where
  "cell_member ls (IntCell i) = Some (LInt i \<in> set ls)"
| "cell_member ls (StrCell t) = Some (LStr t \<in> set ls)"

definition cell_is_in :: "pl_dtype \<Rightarrow> lit list \<Rightarrow> py_exception + (cell \<Rightarrow> bool option)" where
  "cell_is_in dt ls =
     (if \<not> list_all (\<lambda>l. isinstance_str l \<or> is_int_lit l) ls then Inl NotCovered
      else if list_ex isinstance_str ls \<and> list_ex is_int_lit ls then Inl TypeError
      else if dt = pl_Int64 then
        (if list_ex isinstance_str ls then Inl InvalidOperationError else Inr (cell_member ls))
      else if dt = pl_String then
        (if list_ex is_int_lit ls then Inl InvalidOperationError else Inr (cell_member ls))
      else Inl NotCovered)"

definition cell_cast_string :: "pl_dtype \<Rightarrow> py_exception + (cell \<Rightarrow> cell option)" where
  "cell_cast_string dt =
     (if dt = pl_Int64 \<or> dt = pl_String then Inr (\<lambda>v. Some (StrCell (cell_str v)))
      else Inl NotCovered)"

fun starts_with :: "string \<Rightarrow> string \<Rightarrow> bool" where
  "starts_with s [] = True"
| "starts_with [] (p # ps) = False"
| "starts_with (c # cs) (p # ps) = (c = p \<and> starts_with cs ps)"

fun contains_text :: "string \<Rightarrow> string \<Rightarrow> bool" where
  "contains_text [] pat = (pat = [])"
| "contains_text (c # cs) pat = (starts_with (c # cs) pat \<or> contains_text cs pat)"

fun cell_found :: "string \<Rightarrow> cell \<Rightarrow> bool option" where
  "cell_found pat (StrCell t) = Some (contains_text t pat)"
| "cell_found pat (IntCell i) = None"

definition plain_pattern :: "string \<Rightarrow> bool" where
  "plain_pattern pat =
     list_all (\<lambda>c. c \<in> set ''abcdefghijklmnopqrstuvwxyzABCDEFGHIJKLMNOPQRSTUVWXYZ0123456789 '') pat"

definition cell_str_contains :: "string \<Rightarrow> py_exception + (cell \<Rightarrow> bool option)" where
  "cell_str_contains pat = (if plain_pattern pat then Inr (cell_found pat) else Inl NotCovered)"

fun cell_cast :: "pl_dtype \<Rightarrow> cell \<Rightarrow> cell option" where
  "cell_cast pl_Int64 (StrCell s) = map_option IntCell (parse_int s)"
| "cell_cast pl_String v = Some (StrCell (cell_str v))"
| "cell_cast t v = Some v"

definition series_cast :: "pl_dtype \<Rightarrow> cell series \<Rightarrow> cell series" where
  "series_cast t s =
     \<lparr>dtype = t, cells = map (\<lambda>v. case v of None \<Rightarrow> None | Some x \<Rightarrow> cell_cast t x) (cells s)\<rparr>"

definition cell_unique :: "cell option list \<Rightarrow> cell option list" where
  "cell_unique xs =
     (if None \<in> set xs then [None] else []) @
     map (\<lambda>i. Some (IntCell i))
       (sort (remdups (concat (map (\<lambda>v. case v of Some (IntCell i) \<Rightarrow> [i] | _ \<Rightarrow> []) xs)))) @
     map (\<lambda>t. Some (StrCell t))
       (rev (remdups (rev (concat (map (\<lambda>v. case v of Some (StrCell t) \<Rightarrow> [t] | _ \<Rightarrow> []) xs)))))"

definition cell_backend :: "cell polars" where
  "cell_backend =
     \<lparr>pl_lt = compare_with cell_lt, pl_gt = compare_with cell_gt,
      pl_is_in = cell_is_in,
      pl_cast_string = cell_cast_string,
      pl_str_contains = cell_str_contains,
      pl_cast = series_cast,
      pl_unique = (\<lambda>xs. Some (cell_unique xs)),
      py_str = cell_str\<rparr>"

text \<open>A schema entry with no keys.\<close>

definition no_props :: props where
  "no_props =
     \<lparr>prop_type = None, prop_aliases = None, prop_optional = None, prop_range = None,
      prop_allowed_value = None, prop_not_allowed_value = None, prop_regex = None\<rparr>"

section \<open>Facts about the rendering functions\<close>

lemma str_nat_small: "n < 10 \<Longrightarrow> str_nat n = [''0123456789'' ! n]"
  by (subst str_nat.simps) simp

lemma str_nat_digits:
  "str_nat 0 = ''0''" "str_nat (Suc 0) = ''1''" "str_nat (Suc (Suc 0)) = ''2''"
  "str_nat 1 = ''1''" "str_nat 2 = ''2''" "str_nat 3 = ''3''"
  by (simp_all add: str_nat_small)

lemma str_int_samples:
  "str_int 25 = ''25''" "str_int 200 = ''200''" "str_int (- 5) = ''-5''" "str_int 1 = ''1''"
  "str_int 0 = ''0''" "str_int 120 = ''120''"
  by (simp_all add: str_int_def str_nat.simps)

section \<open>The harmonizer's rename resolution\<close>

lemma snd_foldl_rename_step:
  "snd (foldl (rename_step cols) (m, logs) items) =
     logs @ concat (map (\<lambda>item. snd (rename_step cols ([], []) item)) items)"
proof (induction items arbitrary: m logs)
  case Nil
  then show ?case by simp
next
  case (Cons item items)
  obtain m' logs' where st: "rename_step cols (m, logs) item = (m', logs')"
    by (cases "rename_step cols (m, logs) item")
  have "logs' = logs @ snd (rename_step cols ([], []) item)"
    using st by (auto simp: rename_step_def split: prod.splits option.splits if_splits)
  then show ?case using Cons.IH [of m' logs'] st by simp
qed

lemma filter_concat_key:
  assumes "distinct (map fst xs)" and "(k, v) \<in> set xs"
    and "\<forall>item\<in>set xs. \<forall>e\<in>set (g item). proj e = fst item"
  shows "filter (\<lambda>e. Q e \<and> proj e = k) (concat (map g xs)) = filter (\<lambda>e. Q e \<and> proj e = k) (g (k, v))"
  using assms
proof (induction xs)
  case Nil
  then show ?case by simp
next
  case (Cons x xs)
  show ?case
  proof (cases "fst x = k")
    case True
    then have xv: "x = (k, v)" using Cons.prems by (cases x) (auto simp: image_iff)
    have "k \<notin> fst ` set xs" using Cons.prems(1) True by simp
    then have "\<forall>item\<in>set xs. \<forall>e\<in>set (g item). proj e \<noteq> k"
      using Cons.prems(3) by auto
    then have "filter (\<lambda>e. Q e \<and> proj e = k) (concat (map g xs)) = []"
      by (auto simp: filter_empty_conv)
    then show ?thesis using xv by simp
  next
    case False
    then have "filter (\<lambda>e. Q e \<and> proj e = k) (g x) = []"
      using Cons.prems(3) by (auto simp: filter_empty_conv)
    moreover have "(k, v) \<in> set xs" using Cons.prems(2) False by auto
    moreover have "distinct (map fst xs)" using Cons.prems(1) by simp
    moreover have "\<forall>item\<in>set xs. \<forall>e\<in>set (g item). proj e = fst item"
      using Cons.prems(3) by simp
    ultimately show ?thesis using Cons.IH by simp
  qed
qed

lemma rename_step_log_column:
  "e \<in> set (snd (rename_step cols ([], []) item)) \<Longrightarrow> column e = fst item \<and> action e = ''Rename''"
  by (auto simp: rename_step_def split: prod.splits option.splits if_splits)

lemma cast_step_logs:
  "\<exists>extra. snd (cast_step P (df, logs) item) = logs @ extra \<and>
     (\<forall>e\<in>set extra. action e \<noteq> ''Rename'' \<and> column e = fst item)"
  by (auto simp: cast_step_def Let_def split: prod.splits option.splits)

lemma cast_columns_logs:
  "\<exists>extra. snd (cast_columns P items (df, logs)) = logs @ extra \<and>
     (\<forall>e\<in>set extra. action e \<noteq> ''Rename'' \<and> column e \<in> fst ` set items)"
proof (induction items arbitrary: df logs)
  case Nil
  then show ?case by (simp add: cast_columns_def)
next
  case (Cons item items)
  obtain df' logs' where st: "cast_step P (df, logs) item = (df', logs')"
    by (cases "cast_step P (df, logs) item")
  obtain ex1 where e1: "logs' = logs @ ex1"
      "\<forall>e\<in>set ex1. action e \<noteq> ''Rename'' \<and> column e = fst item"
    using cast_step_logs [of P df logs item] st by auto
  obtain ex2 where e2: "snd (cast_columns P items (df', logs')) = logs' @ ex2"
      "\<forall>e\<in>set ex2. action e \<noteq> ''Rename'' \<and> column e \<in> fst ` set items"
    using Cons.IH [of df' logs'] by auto
  have "snd (cast_columns P (item # items) (df, logs)) = logs @ (ex1 @ ex2)"
    using st e1 e2 by (simp add: cast_columns_def)
  moreover have "\<forall>e\<in>set (ex1 @ ex2). action e \<noteq> ''Rename'' \<and> column e \<in> fst ` set (item # items)"
    using e1 e2 by auto
  ultimately show ?case by blast
qed

lemma harmonize_rename_entries:
  "filter (\<lambda>e. action e = ''Rename'' \<and> column e = col) (snd (harmonize P sch df)) =
   filter (\<lambda>e. action e = ''Rename'' \<and> column e = col)
     (concat (map (\<lambda>item. snd (rename_step (columns df) ([], []) item)) sch))"
proof -
  obtain df1 logs1 where r: "rename_columns sch df = (df1, logs1)"
    by (cases "rename_columns sch df")
  have l1: "logs1 = concat (map (\<lambda>item. snd (rename_step (columns df) ([], []) item)) sch)"
    using r snd_foldl_rename_step [of "columns df" "[]" "[]" sch]
    by (auto simp: rename_columns_def resolve_renames_def split: prod.splits)
  obtain extra where ex: "snd (cast_columns P sch (df1, logs1)) = logs1 @ extra"
      "\<forall>e\<in>set extra. action e \<noteq> ''Rename'' \<and> column e \<in> fst ` set sch"
    using cast_columns_logs [of P sch df1 logs1] by auto
  have "filter (\<lambda>e. action e = ''Rename'' \<and> column e = col) extra = []"
    using ex(2) by (auto simp: filter_empty_conv)
  then show ?thesis using ex(1) r l1 by (simp add: harmonize_def)
qed

lemma find_alias_first:
  "a \<in> set cols \<Longrightarrow> set pre \<inter> set cols = {} \<Longrightarrow> find_alias cols (pre @ a # post) = Some a"
  by (induction pre) auto

lemma find_alias_none: "set al \<inter> set cols = {} \<Longrightarrow> find_alias cols al = None"
  by (induction al) auto

lemma set_dict_set: "set (dict_set d k v) \<subseteq> insert (k, v) (set d)"
  by (induction d k v rule: dict_set.induct) auto

lemma rename_step_targets:
  "snd ` set (fst (rename_step cols (m, logs) item)) \<subseteq> snd ` set m \<union> {c. c \<notin> set cols}"
  using set_dict_set
  by (fastforce simp: rename_step_def split: prod.splits option.splits if_splits)

lemma resolve_renames_targets_aux:
  "snd ` set (fst (foldl (rename_step cols) (m, logs) items)) \<subseteq> snd ` set m \<union> {c. c \<notin> set cols}"
proof (induction items arbitrary: m logs)
  case Nil
  then show ?case by simp
next
  case (Cons item items)
  obtain m' logs' where st: "rename_step cols (m, logs) item = (m', logs')"
    by (cases "rename_step cols (m, logs) item")
  have B: "snd ` set m' \<subseteq> snd ` set m \<union> {c. c \<notin> set cols}"
    using rename_step_targets [of cols m logs item] st by simp
  have A: "snd ` set (fst (foldl (rename_step cols) (m', logs') items))
             \<subseteq> snd ` set m' \<union> {c. c \<notin> set cols}"
    by (rule Cons.IH)
  from A B have "snd ` set (fst (foldl (rename_step cols) (m', logs') items))
             \<subseteq> snd ` set m \<union> {c. c \<notin> set cols}"
    by blast
  then show ?case using st by simp
qed

lemma find_alias_SomeD:
  "find_alias cols al = Some a \<Longrightarrow>
   \<exists>pre post. al = pre @ a # post \<and> a \<in> set cols \<and> set pre \<inter> set cols = {}"
proof (induction al)
  case Nil
  then show ?case by simp
next
  case (Cons x al)
  show ?case
  proof (cases "x \<in> set cols")
    case True
    then have "x = a" using Cons.prems by simp
    then have "x # al = [] @ a # al \<and> a \<in> set cols \<and> set [] \<inter> set cols = {}"
      using True by simp
    then show ?thesis by blast
  next
    case False
    then have "find_alias cols al = Some a" using Cons.prems by simp
    then obtain pre post where "al = pre @ a # post" "a \<in> set cols" "set pre \<inter> set cols = {}"
      using Cons.IH by blast
    then have "x # al = (x # pre) @ a # post \<and> a \<in> set cols \<and> set (x # pre) \<inter> set cols = {}"
      using False by simp
    then show ?thesis by blast
  qed
qed

lemma rename_step_origin:
  "(a, c) \<in> set (fst (rename_step cols (m, logs) item)) \<Longrightarrow>
   (a, c) \<in> set m \<or>
   (c = fst item \<and> c \<notin> set cols \<and>
    find_alias cols (case prop_aliases (snd item) of None \<Rightarrow> [] | Some al \<Rightarrow> al) = Some a)"
  using set_dict_set [of m]
  by (fastforce simp: rename_step_def split: prod.splits option.splits if_splits)

lemma resolve_renames_origin:
  "(a, c) \<in> set (fst (foldl (rename_step cols) (m, logs) items)) \<Longrightarrow>
   (a, c) \<in> set m \<or>
   (\<exists>p. (c, p) \<in> set items \<and> c \<notin> set cols \<and>
        find_alias cols (case prop_aliases p of None \<Rightarrow> [] | Some al \<Rightarrow> al) = Some a)"
proof (induction items arbitrary: m logs)
  case Nil
  then show ?case by simp
next
  case (Cons item items)
  obtain m' logs' where st: "rename_step cols (m, logs) item = (m', logs')"
    by (cases "rename_step cols (m, logs) item")
  have "(a, c) \<in> set (fst (foldl (rename_step cols) (m', logs') items))"
    using Cons.prems st by simp
  then consider "(a, c) \<in> set m'"
    | "\<exists>p. (c, p) \<in> set items \<and> c \<notin> set cols \<and>
        find_alias cols (case prop_aliases p of None \<Rightarrow> [] | Some al \<Rightarrow> al) = Some a"
    using Cons.IH by blast
  then show ?case
  proof cases
    case 1
    then have "(a, c) \<in> set (fst (rename_step cols (m, logs) item))" using st by simp
    then have "(a, c) \<in> set m \<or>
      (c = fst item \<and> c \<notin> set cols \<and>
       find_alias cols (case prop_aliases (snd item) of None \<Rightarrow> [] | Some al \<Rightarrow> al) = Some a)"
      by (rule rename_step_origin)
    then show ?thesis by (cases item) auto
  next
    case 2
    then show ?thesis by auto
  qed
qed

lemma pending_rename_is_first_alias:
  assumes "distinct (map fst sch)" and "(col, props) \<in> set sch"
    and "(a, col) \<in> set (fst (resolve_renames sch (columns df)))"
  shows "col \<notin> set (columns df) \<and>
     (\<exists>pre post. prop_aliases props = Some (pre @ a # post) \<and> a \<in> set (columns df) \<and>
        set pre \<inter> set (columns df) = {})"
proof -
  obtain p where p: "(col, p) \<in> set sch" "col \<notin> set (columns df)"
      "find_alias (columns df) (case prop_aliases p of None \<Rightarrow> [] | Some al \<Rightarrow> al) = Some a"
    using resolve_renames_origin [of a col "columns df" "[]" "[]" sch] assms(3)
    by (auto simp: resolve_renames_def)
  have "p = props"
    using assms(1,2) p(1) by (meson eq_key_imp_eq_value)
  then obtain al where al: "prop_aliases props = Some al" "find_alias (columns df) al = Some a"
    using p(3) by (cases "prop_aliases props") auto
  then show ?thesis using find_alias_SomeD [OF al(2)] p(2) by auto
qed

text \<open>
  The pending renames as a map from alias to canonical name: what one iteration of the
  first loop puts there, what later iterations keep, and the column that
  \<^verbatim>\<open>df.rename(rename_map)\<close> then gives the table.
\<close>

lemma map_of_dict_set:
  "map_of (dict_set d k v) k' = (if k' = k then Some v else map_of d k')"
  by (induction d k v rule: dict_set.induct) auto

lemma rename_step_selects:
  assumes "col \<notin> set cols"
    and "find_alias cols (case prop_aliases props of None \<Rightarrow> [] | Some al \<Rightarrow> al) = Some a"
  shows "map_of (fst (rename_step cols (m, logs) (col, props))) a = Some col"
  using assms by (simp add: rename_step_def map_of_dict_set)

lemma rename_step_keeps:
  assumes "fst item \<in> set cols \<or>
           find_alias cols (case prop_aliases (snd item) of None \<Rightarrow> [] | Some al \<Rightarrow> al) \<noteq> Some a"
  shows "map_of (fst (rename_step cols (m, logs) item)) a = map_of m a"
  using assms
  by (cases item) (auto simp: rename_step_def map_of_dict_set split: option.splits)

lemma resolve_renames_keeps:
  assumes "\<forall>item\<in>set items. fst item \<in> set cols \<or>
           find_alias cols (case prop_aliases (snd item) of None \<Rightarrow> [] | Some al \<Rightarrow> al) \<noteq> Some a"
  shows "map_of (fst (foldl (rename_step cols) (m, logs) items)) a = map_of m a"
  using assms
proof (induction items arbitrary: m logs)
  case Nil
  then show ?case by simp
next
  case (Cons item items)
  obtain m' logs' where st: "rename_step cols (m, logs) item = (m', logs')"
    by (cases "rename_step cols (m, logs) item")
  have "map_of (fst (rename_step cols (m, logs) item)) a = map_of m a"
    using Cons.prems by (intro rename_step_keeps) simp
  then have "map_of m' a = map_of m a" using st by simp
  moreover have "map_of (fst (foldl (rename_step cols) (m', logs') items)) a = map_of m' a"
    using Cons.IH Cons.prems by simp
  ultimately show ?case using st by simp
qed

lemma resolve_renames_selected:
  assumes "col \<notin> set cols"
    and "find_alias cols (case prop_aliases props of None \<Rightarrow> [] | Some al \<Rightarrow> al) = Some a"
  shows "map_of (fst (resolve_renames (before @ [(col, props)]) cols)) a = Some col"
proof -
  obtain m logs where st: "foldl (rename_step cols) ([], []) before = (m, logs)"
    by (cases "foldl (rename_step cols) ([], []) before")
  show ?thesis
    using rename_step_selects [OF assms, of m logs] st by (simp add: resolve_renames_def)
qed

lemma resolve_renames_survives:
  assumes "col \<notin> set cols"
    and "find_alias cols (case prop_aliases props of None \<Rightarrow> [] | Some al \<Rightarrow> al) = Some a"
    and "\<forall>item\<in>set after. fst item \<in> set cols \<or>
           find_alias cols (case prop_aliases (snd item) of None \<Rightarrow> [] | Some al \<Rightarrow> al) \<noteq> Some a"
  shows "map_of (fst (resolve_renames (before @ (col, props) # after) cols)) a = Some col"
proof -
  obtain m logs where st: "foldl (rename_step cols) ([], []) (before @ [(col, props)]) = (m, logs)"
    by (cases "foldl (rename_step cols) ([], []) (before @ [(col, props)])")
  have "map_of m a = Some col"
    using resolve_renames_selected [OF assms(1,2), of before] st by (simp add: resolve_renames_def)
  moreover have "foldl (rename_step cols) ([], []) (before @ (col, props) # after) =
        foldl (rename_step cols) (m, logs) after"
    using st by simp
  ultimately show ?thesis
    using resolve_renames_keeps [OF assms(3), of m logs] by (simp add: resolve_renames_def)
qed

lemma resolve_renames_overwritten:
  assumes "distinct (map fst (before @ (col, props) # after))"
    and "\<exists>item\<in>set after. fst item \<notin> set cols \<and>
           find_alias cols (case prop_aliases (snd item) of None \<Rightarrow> [] | Some al \<Rightarrow> al) = Some a"
  shows "map_of (fst (resolve_renames (before @ (col, props) # after) cols)) a \<noteq> Some col"
proof -
  let ?sel = "\<lambda>item. fst item \<notin> set cols \<and>
           find_alias cols (case prop_aliases (snd item) of None \<Rightarrow> [] | Some al \<Rightarrow> al) = Some a"
  obtain ys x zs where sp: "after = ys @ x # zs" "?sel x" "\<forall>z\<in>set zs. \<not> ?sel z"
    using split_list_last_prop [OF assms(2)] by blast
  obtain c p where x: "x = (c, p)" by (cases x)
  have keep: "\<forall>item\<in>set zs. fst item \<in> set cols \<or>
           find_alias cols (case prop_aliases (snd item) of None \<Rightarrow> [] | Some al \<Rightarrow> al) \<noteq> Some a"
    using sp(3) by blast
  have "map_of (fst (resolve_renames ((before @ (col, props) # ys) @ (c, p) # zs) cols)) a = Some c"
    using sp(2) x by (intro resolve_renames_survives keep) auto
  moreover have "c \<noteq> col" using assms(1) sp(1) x by auto
  ultimately show ?thesis using sp(1) x by simp
qed

lemma map_of_renamed:
  "\<forall>n\<in>fst ` set df. f n = k \<longleftrightarrow> n = a \<Longrightarrow>
   map_of (map (\<lambda>(n, s). (f n, s)) df) k = map_of df a"
  by (induction df) auto

lemma columns_with_columns_cast: "columns (with_columns_cast P c t df) = columns df"
  by (induction df) (auto simp: with_columns_cast_def columns_def)

lemma columns_cast_step: "columns (fst (cast_step P (df, logs) item)) = columns df"
  by (auto simp: cast_step_def Let_def columns_with_columns_cast split: prod.splits option.splits)

lemma columns_cast_columns: "columns (fst (cast_columns P items (df, logs))) = columns df"
proof (induction items arbitrary: df logs)
  case Nil
  then show ?case by (simp add: cast_columns_def)
next
  case (Cons item items)
  obtain df' logs' where st: "cast_step P (df, logs) item = (df', logs')"
    by (cases "cast_step P (df, logs) item")
  have "columns df' = columns df" using columns_cast_step [of P df logs item] st by simp
  moreover have "columns (fst (cast_columns P items (df', logs'))) = columns df'"
    by (rule Cons.IH)
  ultimately show ?case using st by (simp add: cast_columns_def)
qed

lemma renamed_column_data:
  assumes "distinct (map fst sch)" and "(col, props) \<in> set sch" and "col \<notin> set (columns df)"
    and "find_alias (columns df) (case prop_aliases props of None \<Rightarrow> [] | Some al \<Rightarrow> al) = Some a"
    and "map_of (fst (resolve_renames sch (columns df))) a = Some col"
  shows "map_of (fst (rename_columns sch df)) col = map_of df a"
proof -
  obtain rm logs where r: "resolve_renames sch (columns df) = (rm, logs)"
    by (cases "resolve_renames sch (columns df)")
  have ma: "map_of rm a = Some col" using assms(5) r by simp
  then have ne: "rm \<noteq> []" by auto
  let ?f = "\<lambda>n. case map_of rm n of Some n' \<Rightarrow> n' | None \<Rightarrow> n"
  have "?f n = col \<longleftrightarrow> n = a" if n: "n \<in> fst ` set df" for n
  proof
    assume fn: "?f n = col"
    show "n = a"
    proof (cases "map_of rm n")
      case None
      then have "n = col" using fn by simp
      then show ?thesis using n assms(3) by (simp add: columns_def)
    next
      case (Some c)
      then have "c = col" using fn by simp
      then have "(n, col) \<in> set (fst (resolve_renames sch (columns df)))"
        using Some r by (auto dest: map_of_SomeD)
      then obtain p where p: "(col, p) \<in> set sch"
          "find_alias (columns df) (case prop_aliases p of None \<Rightarrow> [] | Some al \<Rightarrow> al) = Some n"
        using resolve_renames_origin [of n col "columns df" "[]" "[]" sch]
        by (auto simp: resolve_renames_def)
      have "p = props" using assms(1,2) p(1) by (meson eq_key_imp_eq_value)
      then show ?thesis using p(2) assms(4) by simp
    qed
  next
    assume "n = a"
    then show "?f n = col" using ma by simp
  qed
  then have "map_of (map (\<lambda>(n, s). (?f n, s)) df) col = map_of df a"
    by (intro map_of_renamed) blast
  then show ?thesis using r ne by (simp add: rename_columns_def df_rename_def)
qed

text \<open>
  Claim C6. For a schema column and an input table: if the canonical name is already a
  column of the table, the report has no \<open>Rename\<close> entry for it and no pending rename has
  it as target, also when one of its aliases is in the table. If the canonical name is
  absent, the first alias, in declared order, that is a column of the table is the one
  logged (\<open>pre\<close> are the aliases scanned before it, none of them in the table); when no
  alias is in the table nothing is logged. In every case the report has at most one
  \<open>Rename\<close> entry for the column, and a pending rename with the column as target, if
  there is one, has that first alias as source.

  That first alias is also the one selected: the iteration of the column (\<open>before\<close> are
  the schema items in front of it, \<open>after\<close> those behind) leaves the pair from the alias
  to the column in \<^verbatim>\<open>rename_map\<close>. The pair is still there at the end of the loop exactly
  when no later schema item, itself absent from the table, selects the same alias; and
  then the table that \<open>harmonize\<close> returns has the canonical column, which after the
  renaming holds the data of the alias column.
\<close>

theorem rename_first_alias_wins:
  assumes "distinct (map fst sch)" and "(col, props) \<in> set sch"
  shows "(col \<in> set (columns df) \<longrightarrow>
            filter (\<lambda>e. action e = ''Rename'' \<and> column e = col) (snd (harmonize P sch df)) = [] \<and>
            col \<notin> snd ` set (fst (resolve_renames sch (columns df))))
       \<and> (col \<notin> set (columns df) \<longrightarrow>
            (\<forall>pre a post. prop_aliases props = Some (pre @ a # post) \<and> a \<in> set (columns df) \<and>
                 set pre \<inter> set (columns df) = {} \<longrightarrow>
               filter (\<lambda>e. action e = ''Rename'' \<and> column e = col) (snd (harmonize P sch df)) =
                 [\<lparr>action = ''Rename'', column = col, details = ''Renamed from '' @ quoted a\<rparr>]))
       \<and> (col \<notin> set (columns df) \<longrightarrow>
            (\<forall>al. prop_aliases props = None \<or> prop_aliases props = Some al \<and> set al \<inter> set (columns df) = {} \<longrightarrow>
               filter (\<lambda>e. action e = ''Rename'' \<and> column e = col) (snd (harmonize P sch df)) = []))
       \<and> length (filter (\<lambda>e. action e = ''Rename'' \<and> column e = col) (snd (harmonize P sch df))) \<le> 1
       \<and> (\<forall>a. (a, col) \<in> set (fst (resolve_renames sch (columns df))) \<longrightarrow>
            col \<notin> set (columns df) \<and>
            (\<exists>pre post. prop_aliases props = Some (pre @ a # post) \<and> a \<in> set (columns df) \<and>
               set pre \<inter> set (columns df) = {}))
       \<and> (\<forall>pre a post before after.
            col \<notin> set (columns df) \<and> prop_aliases props = Some (pre @ a # post) \<and>
            a \<in> set (columns df) \<and> set pre \<inter> set (columns df) = {} \<and>
            sch = before @ (col, props) # after \<longrightarrow>
              map_of (fst (resolve_renames (before @ [(col, props)]) (columns df))) a = Some col \<and>
              (map_of (fst (resolve_renames sch (columns df))) a = Some col \<longleftrightarrow>
                 \<not> (\<exists>item\<in>set after. fst item \<notin> set (columns df) \<and>
                      find_alias (columns df)
                        (case prop_aliases (snd item) of None \<Rightarrow> [] | Some al \<Rightarrow> al) = Some a)) \<and>
              (map_of (fst (resolve_renames sch (columns df))) a = Some col \<longrightarrow>
                 map_of (fst (rename_columns sch df)) col = map_of df a \<and>
                 col \<in> set (columns (fst (harmonize P sch df)))))"
proof -
  let ?g = "\<lambda>item. snd (rename_step (columns df) ([], []) item)"
  let ?R = "filter (\<lambda>e. action e = ''Rename'' \<and> column e = col) (snd (harmonize P sch df))"
  have "\<forall>item\<in>set sch. \<forall>e\<in>set (?g item). column e = fst item"
    using rename_step_log_column by blast
  then have "filter (\<lambda>e. action e = ''Rename'' \<and> column e = col) (concat (map ?g sch)) =
        filter (\<lambda>e. action e = ''Rename'' \<and> column e = col) (?g (col, props))"
    using assms by (rule_tac filter_concat_key) auto
  then have R: "?R = filter (\<lambda>e. action e = ''Rename'' \<and> column e = col) (?g (col, props))"
    by (simp add: harmonize_rename_entries)
  have c1: "col \<in> set (columns df) \<Longrightarrow> ?R = []"
    using R by (simp add: rename_step_def)
  have c1': "col \<in> set (columns df) \<Longrightarrow> col \<notin> snd ` set (fst (resolve_renames sch (columns df)))"
    using resolve_renames_targets_aux [of "columns df" "[]" "[]" sch]
    by (auto simp: resolve_renames_def)
  have c2: "?R = [\<lparr>action = ''Rename'', column = col, details = ''Renamed from '' @ quoted a\<rparr>]"
    if "col \<notin> set (columns df)" "prop_aliases props = Some (pre @ a # post)" "a \<in> set (columns df)"
       "set pre \<inter> set (columns df) = {}" for pre a post
    using R that find_alias_first [of a "columns df" pre post] by (simp add: rename_step_def)
  have c3: "?R = []"
    if "col \<notin> set (columns df)"
       "prop_aliases props = None \<or> prop_aliases props = Some al \<and> set al \<inter> set (columns df) = {}" for al
    using R that find_alias_none [of al "columns df"] by (auto simp: rename_step_def)
  have c4: "length ?R \<le> 1"
    unfolding R by (simp add: rename_step_def split: option.splits)
  have c5: "col \<notin> set (columns df) \<and>
            (\<exists>pre post. prop_aliases props = Some (pre @ a # post) \<and> a \<in> set (columns df) \<and>
               set pre \<inter> set (columns df) = {})"
    if "(a, col) \<in> set (fst (resolve_renames sch (columns df)))" for a
    using pending_rename_is_first_alias [OF assms that] .
  have c6: "map_of (fst (resolve_renames (before @ [(col, props)]) (columns df))) a = Some col \<and>
              (map_of (fst (resolve_renames sch (columns df))) a = Some col \<longleftrightarrow>
                 \<not> (\<exists>item\<in>set after. fst item \<notin> set (columns df) \<and>
                      find_alias (columns df)
                        (case prop_aliases (snd item) of None \<Rightarrow> [] | Some al \<Rightarrow> al) = Some a)) \<and>
              (map_of (fst (resolve_renames sch (columns df))) a = Some col \<longrightarrow>
                 map_of (fst (rename_columns sch df)) col = map_of df a \<and>
                 col \<in> set (columns (fst (harmonize P sch df))))"
    if h: "col \<notin> set (columns df)" "prop_aliases props = Some (pre @ a # post)"
       "a \<in> set (columns df)" "set pre \<inter> set (columns df) = {}"
       "sch = before @ (col, props) # after" for pre a post before after
  proof -
    have fa: "find_alias (columns df) (case prop_aliases props of None \<Rightarrow> [] | Some al \<Rightarrow> al) = Some a"
      using h(2) find_alias_first [OF h(3,4), of post] by simp
    have s1: "map_of (fst (resolve_renames (before @ [(col, props)]) (columns df))) a = Some col"
      using resolve_renames_selected [OF h(1) fa] .
    have s2: "map_of (fst (resolve_renames sch (columns df))) a = Some col"
      if "\<not> (\<exists>item\<in>set after. fst item \<notin> set (columns df) \<and>
                      find_alias (columns df)
                        (case prop_aliases (snd item) of None \<Rightarrow> [] | Some al \<Rightarrow> al) = Some a)"
      unfolding h(5) using that by (intro resolve_renames_survives [OF h(1) fa]) blast
    have s3: "map_of (fst (resolve_renames sch (columns df))) a \<noteq> Some col"
      if "\<exists>item\<in>set after. fst item \<notin> set (columns df) \<and>
                      find_alias (columns df)
                        (case prop_aliases (snd item) of None \<Rightarrow> [] | Some al \<Rightarrow> al) = Some a"
      unfolding h(5) using assms(1) that by (intro resolve_renames_overwritten) (simp_all add: h(5))
    have s4: "map_of (fst (rename_columns sch df)) col = map_of df a \<and>
              col \<in> set (columns (fst (harmonize P sch df)))"
      if m: "map_of (fst (resolve_renames sch (columns df))) a = Some col"
    proof -
      have d: "map_of (fst (rename_columns sch df)) col = map_of df a"
        using renamed_column_data [OF assms h(1) fa m] .
      have "map_of df a \<noteq> None"
        using h(3) by (simp add: columns_def map_of_eq_None_iff)
      then have "map_of (fst (rename_columns sch df)) col \<noteq> None"
        using d by simp
      then have "col \<in> set (columns (fst (rename_columns sch df)))"
        unfolding columns_def map_of_eq_None_iff by simp
      moreover have "columns (fst (harmonize P sch df)) = columns (fst (rename_columns sch df))"
        using columns_cast_columns [of P sch "fst (rename_columns sch df)" "snd (rename_columns sch df)"]
        by (simp add: harmonize_def)
      ultimately show ?thesis using d by simp
    qed
    show ?thesis using s1 s2 s3 s4 by blast
  qed
  show ?thesis using c1 c1' c2 c3 c4 c5 c6 by blast
qed

theorem rename_first_alias_wins_witness:
  "distinct (map fst [(''age'', no_props\<lparr>prop_aliases := Some [''a'', ''b'']\<rparr>)]) \<and>
   (''age'', no_props\<lparr>prop_aliases := Some [''a'', ''b'']\<rparr>)
      \<in> set [(''age'', no_props\<lparr>prop_aliases := Some [''a'', ''b'']\<rparr>)] \<and>
   ''age'' \<notin> set (columns [(''b'', \<lparr>dtype = pl_Int64, cells = [Some (IntCell 1)]\<rparr>),
                           (''a'', \<lparr>dtype = pl_Int64, cells = [Some (IntCell 2)]\<rparr>)]) \<and>
   filter (\<lambda>e. action e = ''Rename'' \<and> column e = ''age'')
     (snd (harmonize cell_backend [(''age'', no_props\<lparr>prop_aliases := Some [''a'', ''b'']\<rparr>)]
        [(''b'', \<lparr>dtype = pl_Int64, cells = [Some (IntCell 1)]\<rparr>),
         (''a'', \<lparr>dtype = pl_Int64, cells = [Some (IntCell 2)]\<rparr>)])) =
     [\<lparr>action = ''Rename'', column = ''age'', details = ''Renamed from '' @ quoted ''a''\<rparr>] \<and>
   map_of (fst (resolve_renames [(''age'', no_props\<lparr>prop_aliases := Some [''a'', ''b'']\<rparr>)]
      (columns [(''b'', \<lparr>dtype = pl_Int64, cells = [Some (IntCell 1)]\<rparr>),
                (''a'', \<lparr>dtype = pl_Int64, cells = [Some (IntCell 2)]\<rparr>)]))) ''a'' = Some ''age'' \<and>
   map_of (fst (rename_columns [(''age'', no_props\<lparr>prop_aliases := Some [''a'', ''b'']\<rparr>)]
        [(''b'', \<lparr>dtype = pl_Int64, cells = [Some (IntCell 1)]\<rparr>),
         (''a'', \<lparr>dtype = pl_Int64, cells = [Some (IntCell 2 :: cell)]\<rparr>)])) ''age'' =
     Some \<lparr>dtype = pl_Int64, cells = [Some (IntCell 2)]\<rparr> \<and>
   ''age'' \<in> set (columns (fst (harmonize cell_backend
        [(''age'', no_props\<lparr>prop_aliases := Some [''a'', ''b'']\<rparr>)]
        [(''b'', \<lparr>dtype = pl_Int64, cells = [Some (IntCell 1)]\<rparr>),
         (''a'', \<lparr>dtype = pl_Int64, cells = [Some (IntCell 2)]\<rparr>)])))"
proof -
  let ?p = "no_props\<lparr>prop_aliases := Some [''a'', ''b'']\<rparr>"
  let ?sch = "[(''age'', ?p)]"
  let ?df = "[(''b'', \<lparr>dtype = pl_Int64, cells = [Some (IntCell 1)]\<rparr>),
              (''a'', \<lparr>dtype = pl_Int64, cells = [Some (IntCell 2)]\<rparr>)]"
  have h1: "distinct (map fst ?sch)" by simp
  have h2: "(''age'', ?p) \<in> set ?sch" by simp
  have h3: "''age'' \<notin> set (columns ?df)" by (simp add: columns_def)
  have h4: "prop_aliases ?p = Some ([] @ ''a'' # [''b'']) \<and> ''a'' \<in> set (columns ?df) \<and>
            set [] \<inter> set (columns ?df) = {}"
    by (simp add: columns_def)
  have h5: "?sch = [] @ (''age'', ?p) # []" by simp
  have h6: "\<not> (\<exists>item\<in>set []. fst item \<notin> set (columns ?df) \<and>
              find_alias (columns ?df)
                (case prop_aliases (snd item) of None \<Rightarrow> [] | Some al \<Rightarrow> al) = Some ''a'')"
    by simp
  note t = rename_first_alias_wins [OF h1 h2, of ?df cell_backend]
  from t h3 h4
  have r: "filter (\<lambda>e. action e = ''Rename'' \<and> column e = ''age'') (snd (harmonize cell_backend ?sch ?df)) =
     [\<lparr>action = ''Rename'', column = ''age'', details = ''Renamed from '' @ quoted ''a''\<rparr>]"
    by blast
  from t h3 h4 h5 h6
  have m: "map_of (fst (resolve_renames ?sch (columns ?df))) ''a'' = Some ''age''"
    by blast
  from t h3 h4 h5 m
  have d: "map_of (fst (rename_columns ?sch ?df)) ''age'' = map_of ?df ''a'' \<and>
           ''age'' \<in> set (columns (fst (harmonize cell_backend ?sch ?df)))"
    by blast
  then have d': "map_of (fst (rename_columns ?sch ?df)) ''age'' =
           Some \<lparr>dtype = pl_Int64, cells = [Some (IntCell 2)]\<rparr>"
    by simp
  show ?thesis using h1 h2 h3 r m d d' by blast
qed

text \<open>
  Claim C1, at a schema whose columns \<open>a\<close> and \<open>b\<close> both declare the alias \<open>x\<close>, and a
  table whose only column is \<open>x\<close>. The second assignment \<^verbatim>\<open>rename_map[alias] = col\<close>
  overwrites the first: the batch rename holds the single pair \<open>x \<rightarrow> b\<close> and renames one
  column, while the report holds two \<open>Rename\<close> entries, one of them for a column \<open>a\<close> that
  the table never gets.
\<close>

theorem shared_alias_two_entries_one_rename:
  "harmonize cell_backend
     [(''a'', no_props\<lparr>prop_aliases := Some [''x'']\<rparr>), (''b'', no_props\<lparr>prop_aliases := Some [''x'']\<rparr>)]
     [(''x'', \<lparr>dtype = pl_String, cells = [Some (StrCell ''v'')]\<rparr>)] =
   ([(''b'', \<lparr>dtype = pl_String, cells = [Some (StrCell ''v'')]\<rparr>)],
    [\<lparr>action = ''Rename'', column = ''a'', details = ''Renamed from '' @ quoted ''x''\<rparr>,
     \<lparr>action = ''Rename'', column = ''b'', details = ''Renamed from '' @ quoted ''x''\<rparr>])
   \<and> fst (resolve_renames
       [(''a'', no_props\<lparr>prop_aliases := Some [''x'']\<rparr>), (''b'', no_props\<lparr>prop_aliases := Some [''x'']\<rparr>)]
       [''x'']) = [(''x'', ''b'')]
   \<and> length (filter (\<lambda>e. action e = ''Rename'')
        (snd (harmonize cell_backend
           [(''a'', no_props\<lparr>prop_aliases := Some [''x'']\<rparr>), (''b'', no_props\<lparr>prop_aliases := Some [''x'']\<rparr>)]
           [(''x'', \<lparr>dtype = pl_String, cells = [Some (StrCell ''v'')]\<rparr>)]))) = 2
   \<and> length (renamed_columns [(''x'', \<lparr>dtype = pl_String, cells = [Some (StrCell ''v'')]\<rparr>)]
        (fst (harmonize cell_backend
           [(''a'', no_props\<lparr>prop_aliases := Some [''x'']\<rparr>), (''b'', no_props\<lparr>prop_aliases := Some [''x'']\<rparr>)]
           [(''x'', \<lparr>dtype = pl_String, cells = [Some (StrCell ''v'')]\<rparr>)]))) = 1"
  by (simp add: harmonize_def cast_columns_def cast_step_def rename_columns_def columns_def
      resolve_renames_def rename_step_def no_props_def df_rename_def renamed_columns_def)

section \<open>The harmonizer's type casting\<close>

lemma map_of_with_columns_cast_other:
  "col \<noteq> c \<Longrightarrow> map_of (with_columns_cast P c t df) col = map_of df col"
  by (induction df) (auto simp: with_columns_cast_def)

lemma map_of_with_columns_cast_same:
  "map_of (with_columns_cast P c t df) c = map_option (pl_cast P t) (map_of df c)"
  by (induction df) (auto simp: with_columns_cast_def)

lemma cast_step_other:
  "fst item \<noteq> col \<Longrightarrow> map_of (fst (cast_step P (df, logs) item)) col = map_of df col"
  by (auto simp: cast_step_def Let_def map_of_with_columns_cast_other
      split: prod.splits option.splits)

lemma cast_columns_other:
  "col \<notin> fst ` set items \<Longrightarrow> map_of (fst (cast_columns P items (df, logs))) col = map_of df col"
proof (induction items arbitrary: df logs)
  case Nil
  then show ?case by (simp add: cast_columns_def)
next
  case (Cons item items)
  obtain df' logs' where st: "cast_step P (df, logs) item = (df', logs')"
    by (cases "cast_step P (df, logs) item")
  have "fst item \<noteq> col" using Cons.prems by auto
  then have "map_of (fst (cast_step P (df, logs) item)) col = map_of df col"
    by (rule cast_step_other)
  then have "map_of df' col = map_of df col"
    using st by simp
  moreover have "map_of (fst (cast_columns P items (df', logs'))) col = map_of df' col"
    using Cons.IH Cons.prems by simp
  ultimately show ?case using st by (simp add: cast_columns_def)
qed

lemma cast_columns_other_logs:
  assumes "col \<notin> fst ` set items"
  shows "filter (\<lambda>e. action e \<noteq> ''Rename'' \<and> column e = col) (snd (cast_columns P items (df, logs))) =
         filter (\<lambda>e. action e \<noteq> ''Rename'' \<and> column e = col) logs"
proof -
  obtain extra where ex: "snd (cast_columns P items (df, logs)) = logs @ extra"
      "\<forall>e\<in>set extra. action e \<noteq> ''Rename'' \<and> column e \<in> fst ` set items"
    using cast_columns_logs [of P items df logs] by auto
  have "filter (\<lambda>e. action e \<noteq> ''Rename'' \<and> column e = col) extra = []"
    using ex(2) assms by (auto simp: filter_empty_conv)
  then show ?thesis using ex(1) by simp
qed

lemma rename_columns_logs:
  "e \<in> set (snd (rename_columns sch df)) \<Longrightarrow> action e = ''Rename''"
proof -
  assume a: "e \<in> set (snd (rename_columns sch df))"
  have "snd (rename_columns sch df) =
        concat (map (\<lambda>item. snd (rename_step (columns df) ([], []) item)) sch)"
    using snd_foldl_rename_step [of "columns df" "[]" "[]" sch]
    by (auto simp: rename_columns_def resolve_renames_def split: prod.splits)
  then show ?thesis using a rename_step_log_column by auto
qed

lemma str_int_diff: "b < a \<Longrightarrow> str_int (int a - int b) = str_nat (a - b)"
  by (simp add: str_int_def nat_diff_distrib')

lemma cast_step_entry:
  assumes "map_of df col = Some s" and "prop_type props = Some t" and "type_map t = Some target"
  shows "\<exists>df'. cast_step P (df, logs) (col, props) =
     (df', logs @
       (if dtype_class (dtype s) = target then []
        else if null_count s < null_count (pl_cast P target s) then
          [\<lparr>action = ''Cast Fail'', column = col,
            details = ''Failed to cast '' @ str_nat (null_count (pl_cast P target s) - null_count s) @
                      '' rows to '' @ t\<rparr>]
        else
          [\<lparr>action = ''Cast Success'', column = col,
            details = ''Cast from '' @ dtype_str (dtype s) @ '' to '' @ t\<rparr>]))"
  using assms
  by (auto simp: cast_step_def Let_def map_of_with_columns_cast_same str_int_diff)

text \<open>
  Claim C5, as amended. For a schema column that is in the table after renaming (\<open>s\<close> is
  its column there) and whose declared type maps to a target physical type: the cast
  entries of the report for that column are none when the physical type of \<open>s\<close> equals
  the target (for Polars, when it is an instance of that class), and exactly one
  otherwise. That entry is \<open>Cast Fail\<close>, with the number of newly failed rows (the null
  count after the cast minus the null count before) and the schema's type string, when
  the cast adds nulls; and \<open>Cast Success\<close>, with the physical type before the cast as
  Polars prints it, parameters included, and the schema's type string, when it adds none.
\<close>

theorem cast_log_entry:
  assumes "distinct (map fst sch)" and "(col, props) \<in> set sch"
    and "map_of (fst (rename_columns sch df)) col = Some s"
    and "prop_type props = Some t" and "type_map t = Some target"
  shows "filter (\<lambda>e. action e \<noteq> ''Rename'' \<and> column e = col) (snd (harmonize P sch df)) =
     (if dtype_class (dtype s) = target then []
      else if null_count s < null_count (pl_cast P target s) then
        [\<lparr>action = ''Cast Fail'', column = col,
          details = ''Failed to cast '' @ str_nat (null_count (pl_cast P target s) - null_count s) @
                    '' rows to '' @ t\<rparr>]
      else
        [\<lparr>action = ''Cast Success'', column = col,
          details = ''Cast from '' @ dtype_str (dtype s) @ '' to '' @ t\<rparr>])"
proof -
  let ?F = "filter (\<lambda>e. action e \<noteq> ''Rename'' \<and> column e = col)"
  let ?entry = "(if dtype_class (dtype s) = target then []
      else if null_count s < null_count (pl_cast P target s) then
        [\<lparr>action = ''Cast Fail'', column = col,
          details = ''Failed to cast '' @ str_nat (null_count (pl_cast P target s) - null_count s) @
                    '' rows to '' @ t\<rparr>]
      else
        [\<lparr>action = ''Cast Success'', column = col,
          details = ''Cast from '' @ dtype_str (dtype s) @ '' to '' @ t\<rparr>])"
  obtain pre post where sp: "sch = pre @ (col, props) # post"
    using assms(2) by (auto dest: split_list)
  have npre: "col \<notin> fst ` set pre" and npost: "col \<notin> fst ` set post"
    using assms(1) sp by auto
  obtain df1 logs1 where st0: "rename_columns sch df = (df1, logs1)"
    by (cases "rename_columns sch df")
  have l1: "?F logs1 = []"
    using rename_columns_logs [of _ sch df] st0 by (auto simp: filter_empty_conv)
  have m1: "map_of df1 col = Some s" using assms(3) st0 by simp
  obtain df2 logs2 where st1: "cast_columns P pre (df1, logs1) = (df2, logs2)"
    by (cases "cast_columns P pre (df1, logs1)")
  have m2: "map_of df2 col = Some s"
    using cast_columns_other [OF npre, of P df1 logs1] st1 m1 by simp
  have l2: "?F logs2 = []"
    using cast_columns_other_logs [OF npre, of P df1 logs1] st1 l1 by simp
  obtain df3 where st2: "cast_step P (df2, logs2) (col, props) = (df3, logs2 @ ?entry)"
    using cast_step_entry [OF m2 assms(4,5), where P = P and logs = logs2] by blast
  have l3: "?F (logs2 @ ?entry) = ?entry"
    using l2 by simp
  have "harmonize P sch df = cast_columns P post (df3, logs2 @ ?entry)"
    using st0 st1 st2 sp by (simp add: harmonize_def cast_columns_def)
  then have "?F (snd (harmonize P sch df)) = ?F (logs2 @ ?entry)"
    using cast_columns_other_logs [OF npost, of P df3 "logs2 @ ?entry"] by simp
  then show ?thesis using l3 by simp
qed

theorem cast_log_entry_witness:
  "distinct (map fst [(''age'', no_props\<lparr>prop_type := Some ''integer'', prop_aliases := Some [''Age'']\<rparr>),
                      (''seen'', no_props\<lparr>prop_type := Some ''date''\<rparr>),
                      (''day'', no_props\<lparr>prop_type := Some ''date''\<rparr>)]) \<and>
   map_of (fst (rename_columns
      [(''age'', no_props\<lparr>prop_type := Some ''integer'', prop_aliases := Some [''Age'']\<rparr>),
       (''seen'', no_props\<lparr>prop_type := Some ''date''\<rparr>),
       (''day'', no_props\<lparr>prop_type := Some ''date''\<rparr>)]
      [(''Age'', \<lparr>dtype = pl_String,
         cells = [Some (StrCell ''25''), Some (StrCell ''bad''), Some (StrCell ''200''), Some (StrCell ''-5'')]\<rparr>),
       (''seen'', \<lparr>dtype = pl_Datetime ''(time_unit='us', time_zone=None)'',
         cells = [None, None, None, None]\<rparr>),
       (''day'', \<lparr>dtype = pl_Date, cells = [None, None, None, None]\<rparr>)])) ''age'' =
     Some \<lparr>dtype = pl_String,
         cells = [Some (StrCell ''25''), Some (StrCell ''bad''), Some (StrCell ''200''), Some (StrCell ''-5'')]\<rparr> \<and>
   type_map ''integer'' = Some pl_Int64 \<and> type_map ''date'' = Some pl_Date \<and>
   snd (harmonize cell_backend
      [(''age'', no_props\<lparr>prop_type := Some ''integer'', prop_aliases := Some [''Age'']\<rparr>),
       (''seen'', no_props\<lparr>prop_type := Some ''date''\<rparr>),
       (''day'', no_props\<lparr>prop_type := Some ''date''\<rparr>)]
      [(''Age'', \<lparr>dtype = pl_String,
         cells = [Some (StrCell ''25''), Some (StrCell ''bad''), Some (StrCell ''200''), Some (StrCell ''-5'')]\<rparr>),
       (''seen'', \<lparr>dtype = pl_Datetime ''(time_unit='us', time_zone=None)'',
         cells = [None, None, None, None]\<rparr>),
       (''day'', \<lparr>dtype = pl_Date, cells = [None, None, None, None]\<rparr>)]) =
     [\<lparr>action = ''Rename'', column = ''age'', details = ''Renamed from '' @ quoted ''Age''\<rparr>,
      \<lparr>action = ''Cast Fail'', column = ''age'', details = ''Failed to cast 1 rows to integer''\<rparr>,
      \<lparr>action = ''Cast Success'', column = ''seen'',
        details = ''Cast from Datetime(time_unit='us', time_zone=None) to date''\<rparr>] \<and>
   filter (\<lambda>e. action e \<noteq> ''Rename'' \<and> column e = ''age'')
     [\<lparr>action = ''Rename'', column = ''age'', details = ''Renamed from '' @ quoted ''Age''\<rparr>,
      \<lparr>action = ''Cast Fail'', column = ''age'', details = ''Failed to cast 1 rows to integer''\<rparr>,
      \<lparr>action = ''Cast Success'', column = ''seen'',
        details = ''Cast from Datetime(time_unit='us', time_zone=None) to date''\<rparr>] =
     [\<lparr>action = ''Cast Fail'', column = ''age'', details = ''Failed to cast 1 rows to integer''\<rparr>]"
proof -
  let ?p = "no_props\<lparr>prop_type := Some ''integer'', prop_aliases := Some [''Age'']\<rparr>"
  let ?sch = "[(''age'', ?p), (''seen'', no_props\<lparr>prop_type := Some ''date''\<rparr>),
               (''day'', no_props\<lparr>prop_type := Some ''date''\<rparr>)]"
  let ?s = "\<lparr>dtype = pl_String,
         cells = [Some (StrCell ''25''), Some (StrCell ''bad''), Some (StrCell ''200''), Some (StrCell ''-5'')]\<rparr>"
  let ?df = "[(''Age'', ?s),
       (''seen'', \<lparr>dtype = pl_Datetime ''(time_unit='us', time_zone=None)'',
         cells = [None, None, None, None :: cell option]\<rparr>),
       (''day'', \<lparr>dtype = pl_Date, cells = [None, None, None, None]\<rparr>)]"
  let ?logs = "[\<lparr>action = ''Rename'', column = ''age'', details = ''Renamed from '' @ quoted ''Age''\<rparr>,
      \<lparr>action = ''Cast Fail'', column = ''age'', details = ''Failed to cast 1 rows to integer''\<rparr>,
      \<lparr>action = ''Cast Success'', column = ''seen'',
        details = ''Cast from Datetime(time_unit='us', time_zone=None) to date''\<rparr>]"
  have h1: "distinct (map fst ?sch)" by simp
  have h2: "(''age'', ?p) \<in> set ?sch" by simp
  have h3: "map_of (fst (rename_columns ?sch ?df)) ''age'' = Some ?s"
    by (simp add: rename_columns_def resolve_renames_def rename_step_def columns_def no_props_def
        df_rename_def)
  have h4: "prop_type ?p = Some ''integer''" by (simp add: no_props_def)
  have h5: "type_map ''integer'' = Some pl_Int64" "type_map ''date'' = Some pl_Date"
    by (simp_all add: type_map_def)
  have run: "snd (harmonize cell_backend ?sch ?df) = ?logs"
    by (simp add: harmonize_def cast_columns_def cast_step_def rename_columns_def columns_def
      resolve_renames_def rename_step_def no_props_def type_map_def null_count_def df_rename_def
      with_columns_cast_def cell_backend_def series_cast_def digit_of_def parse_int_def Let_def
      str_int_def str_nat_small)
  have c: "pl_cast cell_backend pl_Int64 ?s =
           \<lparr>dtype = pl_Int64, cells = [Some (IntCell 25), None, Some (IntCell 200), Some (IntCell (- 5))]\<rparr>"
    by (simp add: cell_backend_def series_cast_def digit_of_def parse_int_def)
  have "filter (\<lambda>e. action e \<noteq> ''Rename'' \<and> column e = ''age'') (snd (harmonize cell_backend ?sch ?df)) =
     [\<lparr>action = ''Cast Fail'', column = ''age'', details = ''Failed to cast 1 rows to integer''\<rparr>]"
    unfolding cast_log_entry [OF h1 h2 h3 h4 h5(1), of cell_backend] c
    by (simp add: null_count_def str_nat_small)
  then show ?thesis using h1 h3 h5 run by simp
qed

text \<open>
  The claim as stated has \<open>Cast Success\<close> report the physical type names before and after
  the cast. For a text column cast to the schema type \<open>integer\<close>, the column is of physical
  type \<open>Int64\<close> afterwards, and the entry reads \<^verbatim>\<open>Cast from String to integer\<close>: it names
  the schema's type string, not the physical type after the cast.
\<close>

theorem cast_success_names_schema_type:
  "snd (harmonize cell_backend [(''age'', no_props\<lparr>prop_type := Some ''integer''\<rparr>)]
          [(''age'', \<lparr>dtype = pl_String, cells = [Some (StrCell ''25'')]\<rparr>)]) =
     [\<lparr>action = ''Cast Success'', column = ''age'', details = ''Cast from String to integer''\<rparr>] \<and>
   map_of (fst (harmonize cell_backend [(''age'', no_props\<lparr>prop_type := Some ''integer''\<rparr>)]
          [(''age'', \<lparr>dtype = pl_String, cells = [Some (StrCell ''25'')]\<rparr>)])) ''age'' =
     Some \<lparr>dtype = pl_Int64, cells = [Some (IntCell 25)]\<rparr> \<and>
   ''Cast from String to integer'' \<noteq> ''Cast from '' @ dtype_str pl_String @ '' to '' @ dtype_str pl_Int64"
  by (simp add: harmonize_def cast_columns_def cast_step_def rename_columns_def columns_def
      resolve_renames_def rename_step_def no_props_def type_map_def null_count_def
      with_columns_cast_def cell_backend_def series_cast_def digit_of_def parse_int_def Let_def)

section \<open>Construction from the schema document\<close>

text \<open>
  Claim C3, as amended. When opening or parsing the schema document raises (the file is
  missing, unreadable or no YAML), the constructor of either class raises one
  \<open>ValueError\<close> whose message is \<^verbatim>\<open>Failed to load schema: \<close> followed by the cause; no
  harmonizer or validator exists then, so no table is processed. A document that parses
  to a mapping is accepted whatever its keys: the schema is the value under \<open>schema\<close>, and
  empty without that key.
\<close>

theorem load_failure_is_wrapped:
  "DataHarmonizer_init (Raised e) = Inl (ValueError (''Failed to load schema: '' @ e)) \<and>
   DataValidator_init (Raised e) = Inl (ValueError (''Failed to load schema: '' @ e)) \<and>
   DataHarmonizer_init (Loaded (YamlMapping m)) =
      Inr (case map_of m ''schema'' of Some sch \<Rightarrow> sch | None \<Rightarrow> []) \<and>
   DataValidator_init (Loaded (YamlMapping m)) =
      Inr (case map_of m ''schema'' of Some sch \<Rightarrow> sch | None \<Rightarrow> [])"
  by (simp add: DataHarmonizer_init_def DataValidator_init_def DataHarmonizer_load_schema_def
      DataValidator_load_schema_def get_schema_def)

text \<open>
  The claim as stated fails for a document of the wrong structure: a mapping whose
  columns stand under the key \<open>columns\<close> instead of \<open>schema\<close> constructs both classes
  without an error, with an empty schema.
\<close>

theorem wrong_structure_is_accepted:
  "DataHarmonizer_init (Loaded (YamlMapping [(''columns'', [(''age'', no_props)])])) = Inr [] \<and>
   DataValidator_init (Loaded (YamlMapping [(''columns'', [(''age'', no_props)])])) = Inr []"
  by (simp add: DataHarmonizer_init_def DataValidator_init_def DataHarmonizer_load_schema_def
      DataValidator_load_schema_def get_schema_def)

text \<open>
  Claim C9. If the loaded document is a mapping without the key \<open>schema\<close>, both
  constructors return (no exception) with the empty schema; with it, \<open>harmonize\<close> returns
  the table unchanged and an empty report, and \<open>validate\<close> returns an empty report, for
  every table.
\<close>

theorem missing_schema_key_is_empty_schema:
  assumes "map_of m ''schema'' = None"
  shows "(case DataHarmonizer_init (Loaded (YamlMapping m)) of
            Inl e \<Rightarrow> False
          | Inr sch \<Rightarrow> sch = [] \<and> harmonize P sch df = (df, []))
       \<and> (case DataValidator_init (Loaded (YamlMapping m)) of
            Inl e \<Rightarrow> False
          | Inr sch \<Rightarrow> sch = [] \<and> validate P sch df = Inr [])"
  using assms
  by (simp add: DataHarmonizer_init_def DataValidator_init_def DataHarmonizer_load_schema_def
      DataValidator_load_schema_def get_schema_def harmonize_def cast_columns_def
      rename_columns_def resolve_renames_def validate_def)

theorem missing_schema_key_is_empty_schema_witness:
  "map_of [(''columns'', [(''age'', no_props)])] ''schema'' = None \<and>
   DataHarmonizer_init (Loaded (YamlMapping [(''columns'', [(''age'', no_props)])])) = Inr [] \<and>
   harmonize cell_backend [] [(''age'', \<lparr>dtype = pl_Int64, cells = [Some (IntCell 25)]\<rparr>)] =
     ([(''age'', \<lparr>dtype = pl_Int64, cells = [Some (IntCell 25)]\<rparr>)], []) \<and>
   DataValidator_init (Loaded (YamlMapping [(''columns'', [(''age'', no_props)])])) = Inr [] \<and>
   validate cell_backend [] [(''age'', \<lparr>dtype = pl_Int64, cells = [Some (IntCell 25)]\<rparr>)] = Inr []"
proof -
  have h: "map_of [(''columns'', [(''age'', no_props)])] ''schema'' = None" by simp
  from missing_schema_key_is_empty_schema [OF h, of cell_backend
      "[(''age'', \<lparr>dtype = pl_Int64, cells = [Some (IntCell 25)]\<rparr>)]"]
  show ?thesis using h by (auto split: sum.splits)
qed

section \<open>The validator's loop\<close>

text \<open>
  \<open>validate\<close> returns a report exactly when the loop body raises for no schema item; the
  report is then the concatenation of the findings of the items, each finding carrying
  the name of its item.
\<close>

lemma validate_loop_Inr:
  "validate_loop P df items errors = Inr report \<Longrightarrow>
   (\<forall>item\<in>set items. \<not> isl (validate_column P df item)) \<and>
   report = errors @ concat (map (\<lambda>item. projr (validate_column P df item)) items)"
proof (induction items arbitrary: errors)
  case Nil
  then show ?case by simp
next
  case (Cons item items)
  then obtain fs where fs: "validate_column P df item = Inr fs"
    by (cases "validate_column P df item") auto
  then have "validate_loop P df items (errors @ fs) = Inr report"
    using Cons.prems by simp
  then have "(\<forall>item\<in>set items. \<not> isl (validate_column P df item)) \<and>
     report = (errors @ fs) @ concat (map (\<lambda>item. projr (validate_column P df item)) items)"
    by (rule Cons.IH)
  then show ?case using fs by simp
qed

lemma validate_Inr:
  "validate P sch df = Inr report \<Longrightarrow>
   (\<forall>item\<in>set sch. \<not> isl (validate_column P df item)) \<and>
   report = concat (map (\<lambda>item. projr (validate_column P df item)) sch)"
  using validate_loop_Inr [of P df sch "[]" report] by (simp add: validate_def)

lemma check_names:
  "check_range P df col props s = Inr fs \<Longrightarrow> f \<in> set fs \<Longrightarrow> check f = ''Range'' \<and> variable f = col"
  "check_allowed P df col props s = Inr fs \<Longrightarrow> f \<in> set fs \<Longrightarrow> check f = ''Allowed Values'' \<and> variable f = col"
  "check_forbidden P df col props s = Inr fs \<Longrightarrow> f \<in> set fs \<Longrightarrow> check f = ''Forbidden Values'' \<and> variable f = col"
  "check_regex P df col props s = Inr fs \<Longrightarrow> f \<in> set fs \<Longrightarrow> check f = ''Regex'' \<and> variable f = col"
  by (auto simp: check_range_def check_allowed_def check_forbidden_def
      check_regex_def Let_def split: option.splits if_splits prod.splits sum.splits)

lemma check_type_name:
  "f \<in> set (check_type col props s) \<Longrightarrow> check f = ''Type'' \<and> variable f = col"
  by (auto simp: check_type_def split: option.splits if_splits)

lemma validate_column_present:
  assumes "map_of df col = Some s" and "validate_column P df (col, props) = Inr fs"
  shows "\<exists>r a b g. check_range P df col props s = Inr r \<and> check_allowed P df col props s = Inr a \<and>
           check_forbidden P df col props s = Inr b \<and> check_regex P df col props s = Inr g \<and>
           fs = check_type col props s @ r @ a @ b @ g"
  using assms by (auto simp: validate_column_def split: sum.splits)

lemma validate_column_absent:
  "map_of df col = None \<Longrightarrow>
   validate_column P df (col, props) =
     Inr (if prop_optional props = Some True then []
          else [\<lparr>variable = col, check = ''Existence'', description = ''Column not found'',
                 examples = ''N/A''\<rparr>])"
  by (auto simp: validate_column_def split: option.splits)

lemma validate_column_variable:
  assumes "validate_column P df item = Inr fs" and "f \<in> set fs"
  shows "variable f = fst item"
proof -
  obtain col props where item: "item = (col, props)" by (cases item)
  show ?thesis
  proof (cases "map_of df col")
    case None
    then show ?thesis
      using assms item validate_column_absent [OF None, of P props] by (auto split: if_splits)
  next
    case (Some s)
    obtain r a b g where c: "check_range P df col props s = Inr r" "check_allowed P df col props s = Inr a"
        "check_forbidden P df col props s = Inr b" "check_regex P df col props s = Inr g"
        "fs = check_type col props s @ r @ a @ b @ g"
      using validate_column_present [OF Some] assms(1) item by blast
    show ?thesis
      using assms(2) c item check_names [of P df col props s] check_type_name [of f col props s]
      by auto
  qed
qed

lemma projr_validate_column_variable:
  "f \<in> set (projr (validate_column P df item)) \<Longrightarrow> \<not> isl (validate_column P df item) \<Longrightarrow>
   variable f = fst item"
  using validate_column_variable [of P df item "projr (validate_column P df item)" f]
  by (cases "validate_column P df item") auto

lemma report_for_column:
  assumes "distinct (map fst sch)" and "(col, props) \<in> set sch" and "validate P sch df = Inr report"
  shows "\<exists>fs. validate_column P df (col, props) = Inr fs \<and>
           filter (\<lambda>f. Q f \<and> variable f = col) report = filter Q fs"
proof -
  have v: "\<forall>item\<in>set sch. \<not> isl (validate_column P df item)"
    and r: "report = concat (map (\<lambda>item. projr (validate_column P df item)) sch)"
    using validate_Inr [OF assms(3)] by auto
  obtain fs where fs: "validate_column P df (col, props) = Inr fs"
    using v assms(2) by (cases "validate_column P df (col, props)") auto
  have "\<forall>item\<in>set sch. \<forall>f\<in>set (projr (validate_column P df item)). variable f = fst item"
    using v projr_validate_column_variable by blast
  then have "filter (\<lambda>f. Q f \<and> variable f = col) report =
        filter (\<lambda>f. Q f \<and> variable f = col) (projr (validate_column P df (col, props)))"
    unfolding r by (rule filter_concat_key [OF assms(1,2)])
  also have "\<dots> = filter Q fs"
    using fs validate_column_variable [OF fs] by (auto intro: filter_cong)
  finally show ?thesis using fs by blast
qed

lemma report_member:
  assumes "validate P sch df = Inr report" and "f \<in> set report"
  shows "\<exists>item fs. item \<in> set sch \<and> validate_column P df item = Inr fs \<and> f \<in> set fs"
proof -
  have v: "\<forall>item\<in>set sch. \<not> isl (validate_column P df item)"
    and r: "report = concat (map (\<lambda>item. projr (validate_column P df item)) sch)"
    using validate_Inr [OF assms(1)] by auto
  obtain item where item: "item \<in> set sch" "f \<in> set (projr (validate_column P df item))"
    using assms(2) r by auto
  then obtain fs where "validate_column P df item = Inr fs"
    using v by (cases "validate_column P df item") auto
  then have "item \<in> set sch \<and> validate_column P df item = Inr fs \<and> f \<in> set fs"
    using item by simp
  then show ?thesis by blast
qed

text \<open>
  The definitions to unfold for running \<open>validate\<close> on a concrete table with the backend
  instance.
\<close>

lemmas validate_eval =
  validate_def validate_column_def check_type_def check_range_def check_allowed_def
  check_forbidden_def check_regex_def range_expr_def allowed_expr_def forbidden_expr_def
  regex_expr_def check_expr_def expr_lt_def expr_gt_def expr_is_in_def expr_cast_string_def
  expr_str_contains_def elementwise_def expr_not_def mask_of_def select_rows_def df_filter_def
  get_example_msg_def List.map_filter_simps Let_def

lemmas cell_backend_eval =
  cell_backend_def cell_is_in_def cell_cast_string_def cell_str_contains_def plain_pattern_def
  cell_unique_def no_props_def

text \<open>
  Claim C7. For a schema column that is not a column of the validated table, the loop
  body raises nothing, runs no other check, and gives exactly the one \<open>Existence\<close>
  finding, with description \<^verbatim>\<open>Column not found\<close> and examples \<^verbatim>\<open>N/A\<close>; it gives no finding
  when the column's \<open>optional\<close> is true. In every report that \<open>validate\<close> returns, these
  are the findings for that column.
\<close>

theorem missing_column_existence:
  assumes "distinct (map fst sch)" and "(col, props) \<in> set sch" and "col \<notin> set (columns df)"
  shows "validate_column P df (col, props) =
           Inr (if prop_optional props = Some True then []
                else [\<lparr>variable = col, check = ''Existence'', description = ''Column not found'',
                       examples = ''N/A''\<rparr>])
       \<and> (\<forall>report. validate P sch df = Inr report \<longrightarrow>
            filter (\<lambda>f. variable f = col) report =
              (if prop_optional props = Some True then []
               else [\<lparr>variable = col, check = ''Existence'', description = ''Column not found'',
                      examples = ''N/A''\<rparr>]))"
proof -
  have n: "map_of df col = None"
    using assms(3) by (simp add: columns_def map_of_eq_None_iff)
  have a: "validate_column P df (col, props) =
           Inr (if prop_optional props = Some True then []
                else [\<lparr>variable = col, check = ''Existence'', description = ''Column not found'',
                       examples = ''N/A''\<rparr>])"
    by (rule validate_column_absent [OF n])
  have b: "filter (\<lambda>f. variable f = col) report =
              (if prop_optional props = Some True then []
               else [\<lparr>variable = col, check = ''Existence'', description = ''Column not found'',
                      examples = ''N/A''\<rparr>])"
    if "validate P sch df = Inr report" for report
    using report_for_column [OF assms(1,2) that, of "\<lambda>f. True"] a by auto
  show ?thesis using a b by blast
qed

theorem missing_column_existence_witness:
  "distinct (map fst [(''zip'', no_props), (''fax'', no_props\<lparr>prop_optional := Some True\<rparr>)]) \<and>
   (''zip'', no_props) \<in> set [(''zip'', no_props), (''fax'', no_props\<lparr>prop_optional := Some True\<rparr>)] \<and>
   ''zip'' \<notin> set (columns [(''age'', \<lparr>dtype = pl_Int64, cells = [Some (IntCell 25)]\<rparr>)]) \<and>
   validate cell_backend [(''zip'', no_props), (''fax'', no_props\<lparr>prop_optional := Some True\<rparr>)]
        [(''age'', \<lparr>dtype = pl_Int64, cells = [Some (IntCell 25)]\<rparr>)] =
     Inr [\<lparr>variable = ''zip'', check = ''Existence'', description = ''Column not found'',
           examples = ''N/A''\<rparr>] \<and>
   filter (\<lambda>f. variable f = ''zip'')
     [\<lparr>variable = ''zip'', check = ''Existence'', description = ''Column not found'',
       examples = ''N/A''\<rparr>] =
     [\<lparr>variable = ''zip'', check = ''Existence'', description = ''Column not found'',
       examples = ''N/A''\<rparr>]"
proof -
  let ?sch = "[(''zip'', no_props), (''fax'', no_props\<lparr>prop_optional := Some True\<rparr>)]"
  let ?df = "[(''age'', \<lparr>dtype = pl_Int64, cells = [Some (IntCell 25)]\<rparr>)]"
  let ?report = "[\<lparr>variable = ''zip'', check = ''Existence'', description = ''Column not found'',
           examples = ''N/A''\<rparr>]"
  have h1: "distinct (map fst ?sch)" by simp
  have h2: "(''zip'', no_props) \<in> set ?sch" by simp
  have h3: "''zip'' \<notin> set (columns ?df)" by (simp add: columns_def)
  have h4: "validate cell_backend ?sch ?df = Inr ?report"
    by (simp add: validate_eval cell_backend_eval)
  from missing_column_existence [OF h1 h2 h3, of cell_backend] h4
  have "filter (\<lambda>f. variable f = ''zip'') ?report =
          (if prop_optional no_props = Some True then [] else ?report)"
    by blast
  then show ?thesis using h1 h2 h3 h4 by (simp add: no_props_def)
qed

section \<open>The examples string\<close>

lemma example_str_shape:
  fixes vs :: "string list"
  assumes "r = (if length vs > 3
         then py_join '', '' (take 3 vs) @ '', ... (+'' @ str_nat (length vs - 3) @ '' more)''
         else py_join '', '' (take 3 vs))"
  shows "(case vs of
         [] \<Rightarrow> r = []
       | [a] \<Rightarrow> r = a
       | [a, b] \<Rightarrow> r = a @ '', '' @ b
       | [a, b, c] \<Rightarrow> r = a @ '', '' @ b @ '', '' @ c
       | a # b # c # d # rest \<Rightarrow>
           r = a @ '', '' @ b @ '', '' @ c @ '', ... (+'' @ str_nat (length (d # rest)) @ '' more)'')"
  unfolding assms by (simp split: list.splits)

text \<open>
  Claim C8. \<open>get_example_msg\<close> returns \<open>N/A\<close> when the column cannot be read from the
  table of invalid rows or \<open>unique\<close> fails. Otherwise, with the renderings of the non-null
  unique values in the order \<open>unique\<close> gives them: up to three of them are joined with a
  comma and a space; when there are more than three, the first three are joined and
  followed by \<^verbatim>\<open>, ... (+N more)\<close>, where \<open>N\<close> is the number of values beyond the third.
  The function returns a string in every case, so it never ends the validation.
\<close>

theorem example_msg_format:
  "(map_of invalid_df col = None \<longrightarrow> get_example_msg P invalid_df col = ''N/A'') \<and>
   (\<forall>s. map_of invalid_df col = Some s \<and> pl_unique P (cells s) = None \<longrightarrow>
        get_example_msg P invalid_df col = ''N/A'') \<and>
   (\<forall>s u. map_of invalid_df col = Some s \<and> pl_unique P (cells s) = Some u \<longrightarrow>
      (case concat (map (\<lambda>v. case v of None \<Rightarrow> [] | Some x \<Rightarrow> [py_str P x]) u) of
         [] \<Rightarrow> get_example_msg P invalid_df col = []
       | [a] \<Rightarrow> get_example_msg P invalid_df col = a
       | [a, b] \<Rightarrow> get_example_msg P invalid_df col = a @ '', '' @ b
       | [a, b, c] \<Rightarrow> get_example_msg P invalid_df col = a @ '', '' @ b @ '', '' @ c
       | a # b # c # d # rest \<Rightarrow>
           get_example_msg P invalid_df col =
             a @ '', '' @ b @ '', '' @ c @ '', ... (+'' @ str_nat (length (d # rest)) @ '' more)''))"
proof -
  have mf: "map (py_str P) (List.map_filter (\<lambda>v. v) u) =
            concat (map (\<lambda>v. case v of None \<Rightarrow> [] | Some x \<Rightarrow> [py_str P x]) u)" for u
    by (induction u) (auto simp: List.map_filter_simps split: option.splits)
  have main: "(case concat (map (\<lambda>v. case v of None \<Rightarrow> [] | Some x \<Rightarrow> [py_str P x]) u) of
         [] \<Rightarrow> get_example_msg P invalid_df col = []
       | [a] \<Rightarrow> get_example_msg P invalid_df col = a
       | [a, b] \<Rightarrow> get_example_msg P invalid_df col = a @ '', '' @ b
       | [a, b, c] \<Rightarrow> get_example_msg P invalid_df col = a @ '', '' @ b @ '', '' @ c
       | a # b # c # d # rest \<Rightarrow>
           get_example_msg P invalid_df col =
             a @ '', '' @ b @ '', '' @ c @ '', ... (+'' @ str_nat (length (d # rest)) @ '' more)'')"
    if h: "map_of invalid_df col = Some s" "pl_unique P (cells s) = Some u" for s u
  proof -
    let ?vs = "List.map_filter (\<lambda>v. v) u"
    have g: "get_example_msg P invalid_df col =
        (if length (map (py_str P) ?vs) > 3
         then py_join '', '' (take 3 (map (py_str P) ?vs)) @ '', ... (+'' @
              str_nat (length (map (py_str P) ?vs) - 3) @ '' more)''
         else py_join '', '' (take 3 (map (py_str P) ?vs)))"
      using h by (simp add: get_example_msg_def Let_def take_map)
    show ?thesis
      using example_str_shape [OF g [unfolded mf]] .
  qed
  show ?thesis
    using main by (auto simp: get_example_msg_def)
qed

theorem example_msg_format_witness:
  "map_of [(''a'', \<lparr>dtype = pl_Int64, cells = map (Some \<circ> IntCell) [1, 2, 3, 2, 1, 5, 7]\<rparr>)] ''a'' =
     Some \<lparr>dtype = pl_Int64, cells = map (Some \<circ> IntCell) [1, 2, 3, 2, 1, 5, 7]\<rparr> \<and>
   pl_unique cell_backend (map (Some \<circ> IntCell) [1, 2, 3, 2, 1, 5, 7]) =
     Some (map (Some \<circ> IntCell) [1, 2, 3, 5, 7]) \<and>
   get_example_msg cell_backend
     [(''a'', \<lparr>dtype = pl_Int64, cells = map (Some \<circ> IntCell) [1, 2, 3, 2, 1, 5, 7]\<rparr>)] ''a'' =
     ''1, 2, 3, ... (+2 more)''"
proof -
  let ?s = "\<lparr>dtype = pl_Int64, cells = map (Some \<circ> IntCell) [1, 2, 3, 2, 1, 5, 7]\<rparr>"
  have h1: "map_of [(''a'', ?s)] ''a'' = Some ?s" by simp
  have h2: "pl_unique cell_backend (cells ?s) = Some (map (Some \<circ> IntCell) [1, 2, 3, 5, 7])"
    by (simp add: cell_backend_def cell_unique_def)
  have n: "str_nat (Suc (Suc 0)) = ''2''" "str_int 1 = ''1''" "str_int 2 = ''2''" "str_int 3 = ''3''"
    by (simp_all add: str_int_def str_nat_small)
  from example_msg_format [of "[(''a'', ?s)]" "''a''" cell_backend] h1 h2
  have "case concat (map (\<lambda>v. case v of None \<Rightarrow> [] | Some x \<Rightarrow> [py_str cell_backend x])
                (map (Some \<circ> IntCell) [1, 2, 3, 5, 7])) of
         [] \<Rightarrow> get_example_msg cell_backend [(''a'', ?s)] ''a'' = []
       | [a] \<Rightarrow> get_example_msg cell_backend [(''a'', ?s)] ''a'' = a
       | [a, b] \<Rightarrow> get_example_msg cell_backend [(''a'', ?s)] ''a'' = a @ '', '' @ b
       | [a, b, c] \<Rightarrow> get_example_msg cell_backend [(''a'', ?s)] ''a'' = a @ '', '' @ b @ '', '' @ c
       | a # b # c # d # rest \<Rightarrow>
           get_example_msg cell_backend [(''a'', ?s)] ''a'' =
             a @ '', '' @ b @ '', '' @ c @ '', ... (+'' @ str_nat (length (d # rest)) @ '' more)''"
    by blast
  then have "get_example_msg cell_backend [(''a'', ?s)] ''a'' = ''1, 2, 3, ... (+2 more)''"
    by (simp add: cell_backend_def n)
  then show ?thesis using h1 h2 by simp
qed

section \<open>Filtering the rows of a table\<close>

lemma select_rows_same: "select_rows (map p xs) xs = filter p xs"
  by (induction xs) (auto simp: select_rows_def)

lemma length_select_rows:
  "length ys = length xs \<Longrightarrow> length (select_rows (map p xs) ys) = length (filter p xs)"
proof (induction xs arbitrary: ys)
  case Nil
  then show ?case by (simp add: select_rows_def)
next
  case (Cons x xs)
  then obtain y ys' where "ys = y # ys'" by (cases ys) auto
  then show ?case using Cons by (auto simp: select_rows_def)
qed

lemma length_select_rows_cong:
  "length xs = length ys \<Longrightarrow> length (select_rows keep xs) = length (select_rows keep ys)"
proof (induction keep arbitrary: xs ys)
  case Nil
  then show ?case by (simp add: select_rows_def)
next
  case (Cons k keep)
  show ?case
  proof (cases xs)
    case Nil
    then show ?thesis using Cons.prems by (simp add: select_rows_def)
  next
    case (Cons x xs')
    then obtain y ys' where ys: "ys = y # ys'" using Cons.prems by (cases ys) auto
    have "length (select_rows keep xs') = length (select_rows keep ys')"
      using Cons.IH [of xs' ys'] Cons.prems Cons ys by simp
    then show ?thesis using Cons ys by (simp add: select_rows_def)
  qed
qed

lemma map_of_df_filter:
  "map_of (df_filter keep df) col =
     map_option (\<lambda>s. s\<lparr>cells := select_rows keep (cells s)\<rparr>) (map_of df col)"
  by (induction df) (auto simp: df_filter_def)

lemma map_of_df_filter_mask:
  "map_of df col = Some s \<Longrightarrow>
   map_of (df_filter (mask_of predicate s) df) col =
     Some (s\<lparr>cells := filter (\<lambda>v. predicate v = Some True) (cells s)\<rparr>)"
  by (simp add: map_of_df_filter mask_of_def select_rows_same)

lemma height_df_filter:
  assumes "rectangular df" and "map_of df col = Some s"
  shows "height (df_filter (mask_of predicate s) df) =
         length (filter (\<lambda>v. predicate v = Some True) (cells s))"
proof (cases df)
  case Nil
  then show ?thesis using assms by simp
next
  case (Cons c rest)
  obtain n0 s0 where c: "c = (n0, s0)" by (cases c)
  have "(col, s) \<in> set df" using assms(2) by (rule map_of_SomeD)
  then have "length (cells s) = height df"
    using assms(1) by (auto simp: rectangular_def list_all_iff)
  then have "length (cells s0) = length (cells s)"
    using Cons c by simp
  then show ?thesis
    using Cons c by (simp add: df_filter_def mask_of_def length_select_rows)
qed

lemma rectangular_df_filter: "rectangular df \<Longrightarrow> rectangular (df_filter keep df)"
proof (cases df)
  case Nil
  then show ?thesis by (simp add: df_filter_def rectangular_def)
next
  case (Cons c rest)
  assume r: "rectangular df"
  obtain n0 s0 where c: "c = (n0, s0)" by (cases c)
  have "\<forall>(n, s)\<in>set df. length (cells s) = length (cells s0)"
    using r Cons c by (simp add: rectangular_def list_all_iff)
  then have "\<forall>(n, s)\<in>set df. length (select_rows keep (cells s)) = length (select_rows keep (cells s0))"
    using length_select_rows_cong by fastforce
  then show ?thesis
    using Cons c by (auto simp: rectangular_def list_all_iff df_filter_def)
qed

lemma example_msg_of_filter:
  "map_of df col = Some s \<Longrightarrow>
   get_example_msg P (df_filter (mask_of predicate s) df) col =
   get_example_msg P [(col, s\<lparr>cells := filter (\<lambda>v. predicate v = Some True) (cells s)\<rparr>)] col"
  by (simp add: get_example_msg_def map_of_df_filter_mask)

section \<open>The checks of a column that is in the table\<close>

text \<open>
  In a table whose columns all have the same length, the number of rows that
  \<^verbatim>\<open>df.filter\<close> keeps is the number of cells of the checked column at which the predicate
  is true, and the examples are taken from these cells. A check raises exactly when
  building its predicate does.
\<close>

lemma check_range_eq:
  assumes "rectangular df" and "map_of df col = Some s"
  shows "check_range P df col props s =
     (case prop_range props of
        None \<Rightarrow> Inr []
      | Some (low, high) \<Rightarrow>
         (case range_expr P (dtype s) low high of
            Inl e \<Rightarrow> Inl e
          | Inr predicate \<Rightarrow>
              Inr (if filter (\<lambda>v. predicate v = Some True) (cells s) \<noteq> [] then
                     [\<lparr>variable = col, check = ''Range'',
                       description = str_nat (length (filter (\<lambda>v. predicate v = Some True) (cells s))) @
                                     '' rows outside ['' @ str_lit low @ '', '' @ str_lit high @ '']'',
                       examples = get_example_msg P
                          [(col, s\<lparr>cells := filter (\<lambda>v. predicate v = Some True) (cells s)\<rparr>)] col\<rparr>]
                   else [])))"
  using assms
  by (simp add: check_range_def Let_def height_df_filter example_msg_of_filter
      split: option.splits prod.splits sum.splits)

lemma check_allowed_eq:
  assumes "rectangular df" and "map_of df col = Some s"
  shows "check_allowed P df col props s =
     (case prop_allowed_value props of
        None \<Rightarrow> Inr []
      | Some allowed \<Rightarrow>
         (case allowed_expr P allowed (dtype s) of
            Inl e \<Rightarrow> Inl e
          | Inr predicate \<Rightarrow>
              Inr (if filter (\<lambda>v. predicate v = Some True) (cells s) \<noteq> [] then
                     [\<lparr>variable = col, check = ''Allowed Values'',
                       description = str_nat (length (filter (\<lambda>v. predicate v = Some True) (cells s))) @
                                     '' rows have invalid values'',
                       examples = get_example_msg P
                          [(col, s\<lparr>cells := filter (\<lambda>v. predicate v = Some True) (cells s)\<rparr>)] col\<rparr>]
                   else [])))"
  using assms
  by (simp add: check_allowed_def Let_def height_df_filter example_msg_of_filter
      split: option.splits sum.splits)

lemma check_forbidden_eq:
  assumes "rectangular df" and "map_of df col = Some s"
  shows "check_forbidden P df col props s =
     (case prop_not_allowed_value props of
        None \<Rightarrow> Inr []
      | Some forbidden \<Rightarrow>
         (case forbidden_expr P forbidden (dtype s) of
            Inl e \<Rightarrow> Inl e
          | Inr predicate \<Rightarrow>
              Inr (if filter (\<lambda>v. predicate v = Some True) (cells s) \<noteq> [] then
                     [\<lparr>variable = col, check = ''Forbidden Values'',
                       description = str_nat (length (filter (\<lambda>v. predicate v = Some True) (cells s))) @
                                     '' rows found in blacklist'',
                       examples = get_example_msg P
                          [(col, s\<lparr>cells := filter (\<lambda>v. predicate v = Some True) (cells s)\<rparr>)] col\<rparr>]
                   else [])))"
  using assms
  by (simp add: check_forbidden_def Let_def height_df_filter example_msg_of_filter
      split: option.splits sum.splits)

lemma check_regex_eq:
  assumes "rectangular df" and "map_of df col = Some s"
  shows "check_regex P df col props s =
     (case prop_regex props of
        None \<Rightarrow> Inr []
      | Some pattern \<Rightarrow>
          if dtype s = pl_String then
            (case regex_expr P pattern of
               Inl e \<Rightarrow> Inl e
             | Inr predicate \<Rightarrow>
                 Inr (if filter (\<lambda>v. predicate v = Some True) (cells s) \<noteq> [] then
                        [\<lparr>variable = col, check = ''Regex'',
                          description = str_nat (length (filter (\<lambda>v. predicate v = Some True) (cells s))) @
                                        '' rows mismatch pattern '' @ quoted pattern,
                          examples = get_example_msg P
                             [(col, s\<lparr>cells := filter (\<lambda>v. predicate v = Some True) (cells s)\<rparr>)] col\<rparr>]
                      else []))
          else Inr [])"
  using assms
  by (simp add: check_regex_def Let_def height_df_filter example_msg_of_filter
      split: option.splits sum.splits)

lemma filter_check_none:
  "(\<And>f. f \<in> set xs \<Longrightarrow> check f = n) \<Longrightarrow> n \<noteq> m \<Longrightarrow> filter (\<lambda>f. check f = m) xs = []"
  by (auto simp: filter_empty_conv)

lemma filter_check_all:
  "(\<And>f. f \<in> set xs \<Longrightarrow> check f = n) \<Longrightarrow> filter (\<lambda>f. check f = n) xs = xs"
  by (auto simp: filter_id_conv)

lemma validate_column_by_check:
  assumes "map_of df col = Some s" and "validate_column P df (col, props) = Inr fs"
  shows "check_range P df col props s = Inr (filter (\<lambda>f. check f = ''Range'') fs)"
    and "check_allowed P df col props s = Inr (filter (\<lambda>f. check f = ''Allowed Values'') fs)"
    and "check_forbidden P df col props s = Inr (filter (\<lambda>f. check f = ''Forbidden Values'') fs)"
    and "check_regex P df col props s = Inr (filter (\<lambda>f. check f = ''Regex'') fs)"
proof -
  obtain r a b g where c: "check_range P df col props s = Inr r" "check_allowed P df col props s = Inr a"
      "check_forbidden P df col props s = Inr b" "check_regex P df col props s = Inr g"
      "fs = check_type col props s @ r @ a @ b @ g"
    using validate_column_present [OF assms] by blast
  have t: "\<And>f. f \<in> set (check_type col props s) \<Longrightarrow> check f = ''Type''"
    using check_type_name by blast
  have nr: "\<And>f. f \<in> set r \<Longrightarrow> check f = ''Range''" using check_names(1) [OF c(1)] by blast
  have na: "\<And>f. f \<in> set a \<Longrightarrow> check f = ''Allowed Values''" using check_names(2) [OF c(2)] by blast
  have nb: "\<And>f. f \<in> set b \<Longrightarrow> check f = ''Forbidden Values''" using check_names(3) [OF c(3)] by blast
  have ng: "\<And>f. f \<in> set g \<Longrightarrow> check f = ''Regex''" using check_names(4) [OF c(4)] by blast
  show "check_range P df col props s = Inr (filter (\<lambda>f. check f = ''Range'') fs)"
    unfolding c(5) c(1)
    by (simp add: filter_check_none [OF t] filter_check_all [OF nr] filter_check_none [OF na]
        filter_check_none [OF nb] filter_check_none [OF ng])
  show "check_allowed P df col props s = Inr (filter (\<lambda>f. check f = ''Allowed Values'') fs)"
    unfolding c(5) c(2)
    by (simp add: filter_check_none [OF t] filter_check_none [OF nr] filter_check_all [OF na]
        filter_check_none [OF nb] filter_check_none [OF ng])
  show "check_forbidden P df col props s = Inr (filter (\<lambda>f. check f = ''Forbidden Values'') fs)"
    unfolding c(5) c(3)
    by (simp add: filter_check_none [OF t] filter_check_none [OF nr] filter_check_none [OF na]
        filter_check_all [OF nb] filter_check_none [OF ng])
  show "check_regex P df col props s = Inr (filter (\<lambda>f. check f = ''Regex'') fs)"
    unfolding c(5) c(4)
    by (simp add: filter_check_none [OF t] filter_check_none [OF nr] filter_check_none [OF na]
        filter_check_none [OF nb] filter_check_all [OF ng])
qed

lemma expr_not_true: "expr_not b = Some True \<longleftrightarrow> b = Some False"
  by (cases b) (auto simp: expr_not_def)

lemma regex_expr_Inr:
  "regex_expr P pattern = Inr predicate \<Longrightarrow>
   \<exists>found. pl_str_contains P pattern = Inr found \<and>
     (\<forall>v. predicate v = Some True \<longleftrightarrow>
        (case v of None \<Rightarrow> False | Some x \<Rightarrow> found x = Some False))"
  by (auto simp: regex_expr_def expr_str_contains_def elementwise_def expr_not_true
      split: sum.splits option.splits)

lemma regex_finding_source:
  assumes "validate P sch df = Inr report" and "f \<in> set report" and "check f = ''Regex''"
  shows "\<exists>s. map_of df (variable f) = Some s \<and> dtype s = pl_String"
proof -
  obtain item fs where it: "item \<in> set sch" "validate_column P df item = Inr fs" "f \<in> set fs"
    using report_member [OF assms(1,2)] by blast
  obtain c p where item: "item = (c, p)" by (cases item)
  have v: "variable f = c" using validate_column_variable [OF it(2,3)] item by simp
  show ?thesis
  proof (cases "map_of df c")
    case None
    then show ?thesis
      using it(2,3) item assms(3) validate_column_absent [OF None, of P p] by (auto split: if_splits)
  next
    case (Some s)
    have "check_regex P df c p s = Inr (filter (\<lambda>f. check f = ''Regex'') fs)"
      using validate_column_by_check(4) [OF Some] it(2) item by simp
    moreover have "f \<in> set (filter (\<lambda>f. check f = ''Regex'') fs)"
      using it(3) assms(3) by simp
    ultimately have "check_regex P df c p s \<noteq> Inr []"
      by (auto simp: filter_empty_conv)
    then have "dtype s = pl_String"
      by (auto simp: check_regex_def split: option.splits if_splits)
    then show ?thesis using Some v by simp
  qed
qed

text \<open>
  Claim C2. For a column of any physical type other than \<^verbatim>\<open>pl.String\<close> the regex
  check returns no finding and raises nothing, whatever the pattern and the cells. In
  every report that \<open>validate\<close> returns, a \<open>Regex\<close> finding is for a column of the table
  whose physical type is \<^verbatim>\<open>pl.String\<close>, and the report has no \<open>Regex\<close> finding for a
  column of the table of another type. For a column of type
  \<^verbatim>\<open>pl.String\<close> with a pattern, the \<open>Regex\<close> findings of the report for the column are:
  none when no non-null cell fails the pattern, and otherwise the one finding that counts
  the non-null cells on which \<^verbatim>\<open>str.contains\<close> is false, with the examples taken from
  these cells.
\<close>

theorem regex_only_on_text_columns:
  assumes "rectangular df" and "distinct (map fst sch)" and "(col, props) \<in> set sch"
  shows "(\<forall>s. dtype s \<noteq> pl_String \<longrightarrow> check_regex P df col props s = Inr [])
       \<and> (\<forall>report. validate P sch df = Inr report \<longrightarrow>
          (\<forall>f\<in>set report. check f = ''Regex'' \<longrightarrow>
               (\<exists>s. map_of df (variable f) = Some s \<and> dtype s = pl_String))
          \<and> (\<forall>s. map_of df col = Some s \<and> dtype s \<noteq> pl_String \<longrightarrow>
               check_regex P df col props s = Inr [] \<and>
               filter (\<lambda>f. check f = ''Regex'' \<and> variable f = col) report = [])
          \<and> (\<forall>s pattern. map_of df col = Some s \<and> dtype s = pl_String \<and> prop_regex props = Some pattern \<longrightarrow>
               (\<exists>found. pl_str_contains P pattern = Inr found \<and>
                  filter (\<lambda>f. check f = ''Regex'' \<and> variable f = col) report =
                    (let bad = filter (\<lambda>v. case v of None \<Rightarrow> False
                                             | Some x \<Rightarrow> found x = Some False) (cells s)
                     in if bad = [] then []
                        else [\<lparr>variable = col, check = ''Regex'',
                               description = str_nat (length bad) @ '' rows mismatch pattern '' @ quoted pattern,
                               examples = get_example_msg P [(col, s\<lparr>cells := bad\<rparr>)] col\<rparr>]))))"
proof -
  have u: "check_regex P df col props s = Inr []" if "dtype s \<noteq> pl_String" for s
    using that by (simp add: check_regex_def split: option.splits)
  have main: "(\<forall>f\<in>set report. check f = ''Regex'' \<longrightarrow>
                (\<exists>s. map_of df (variable f) = Some s \<and> dtype s = pl_String))
           \<and> (\<forall>s. map_of df col = Some s \<and> dtype s \<noteq> pl_String \<longrightarrow>
                check_regex P df col props s = Inr [] \<and>
                filter (\<lambda>f. check f = ''Regex'' \<and> variable f = col) report = [])
           \<and> (\<forall>s pattern. map_of df col = Some s \<and> dtype s = pl_String \<and> prop_regex props = Some pattern \<longrightarrow>
                (\<exists>found. pl_str_contains P pattern = Inr found \<and>
                   filter (\<lambda>f. check f = ''Regex'' \<and> variable f = col) report =
                     (let bad = filter (\<lambda>v. case v of None \<Rightarrow> False
                                              | Some x \<Rightarrow> found x = Some False) (cells s)
                      in if bad = [] then []
                         else [\<lparr>variable = col, check = ''Regex'',
                                description = str_nat (length bad) @ '' rows mismatch pattern '' @ quoted pattern,
                                examples = get_example_msg P [(col, s\<lparr>cells := bad\<rparr>)] col\<rparr>])))"
    if v: "validate P sch df = Inr report" for report
  proof -
    have a: "\<forall>f\<in>set report. check f = ''Regex'' \<longrightarrow>
              (\<exists>s. map_of df (variable f) = Some s \<and> dtype s = pl_String)"
      using regex_finding_source [OF v] by blast
    obtain fs where fs: "validate_column P df (col, props) = Inr fs"
        "filter (\<lambda>f. check f = ''Regex'' \<and> variable f = col) report = filter (\<lambda>f. check f = ''Regex'') fs"
      using report_for_column [OF assms(2,3) v, of "\<lambda>f. check f = ''Regex''"] by blast
    have r: "check_regex P df col props s = Inr (filter (\<lambda>f. check f = ''Regex'' \<and> variable f = col) report)"
      if "map_of df col = Some s" for s
      using validate_column_by_check(4) [OF that fs(1)] fs(2) by simp
    have b: "check_regex P df col props s = Inr [] \<and>
             filter (\<lambda>f. check f = ''Regex'' \<and> variable f = col) report = []"
      if "map_of df col = Some s" "dtype s \<noteq> pl_String" for s
    proof -
      have "check_regex P df col props s = Inr []"
        using that(2) by (simp add: check_regex_def split: option.splits)
      then show ?thesis using r [OF that(1)] by simp
    qed
    have c: "\<exists>found. pl_str_contains P pattern = Inr found \<and>
                 filter (\<lambda>f. check f = ''Regex'' \<and> variable f = col) report =
                   (let bad = filter (\<lambda>v. case v of None \<Rightarrow> False
                                            | Some x \<Rightarrow> found x = Some False) (cells s)
                    in if bad = [] then []
                       else [\<lparr>variable = col, check = ''Regex'',
                              description = str_nat (length bad) @ '' rows mismatch pattern '' @ quoted pattern,
                              examples = get_example_msg P [(col, s\<lparr>cells := bad\<rparr>)] col\<rparr>])"
      if h: "map_of df col = Some s" "dtype s = pl_String" "prop_regex props = Some pattern" for s pattern
    proof -
      let ?R = "filter (\<lambda>f. check f = ''Regex'' \<and> variable f = col) report"
      have e: "check_regex P df col props s =
            (case regex_expr P pattern of
                 Inl e \<Rightarrow> Inl e
               | Inr predicate \<Rightarrow>
                   Inr (if filter (\<lambda>v. predicate v = Some True) (cells s) \<noteq> [] then
                          [\<lparr>variable = col, check = ''Regex'',
                            description = str_nat (length (filter (\<lambda>v. predicate v = Some True) (cells s))) @
                                          '' rows mismatch pattern '' @ quoted pattern,
                            examples = get_example_msg P
                               [(col, s\<lparr>cells := filter (\<lambda>v. predicate v = Some True) (cells s)\<rparr>)] col\<rparr>]
                        else []))"
        using h(2,3) by (simp add: check_regex_eq [OF assms(1) h(1)])
      obtain predicate where p: "regex_expr P pattern = Inr predicate"
        using e r [OF h(1)] by (cases "regex_expr P pattern") auto
      obtain found where f: "pl_str_contains P pattern = Inr found"
          "\<forall>v. predicate v = Some True \<longleftrightarrow> (case v of None \<Rightarrow> False | Some x \<Rightarrow> found x = Some False)"
        using regex_expr_Inr [OF p] by blast
      have pf: "(\<lambda>v. predicate v = Some True) =
                (\<lambda>v. case v of None \<Rightarrow> False | Some x \<Rightarrow> found x = Some False)"
        using f(2) by auto
      have "?R = (let bad = filter (\<lambda>v. case v of None \<Rightarrow> False
                                            | Some x \<Rightarrow> found x = Some False) (cells s)
                    in if bad = [] then []
                       else [\<lparr>variable = col, check = ''Regex'',
                              description = str_nat (length bad) @ '' rows mismatch pattern '' @ quoted pattern,
                              examples = get_example_msg P [(col, s\<lparr>cells := bad\<rparr>)] col\<rparr>])"
        using e r [OF h(1)] p by (simp add: pf Let_def)
      then show ?thesis using f(1) by blast
    qed
    show ?thesis using a b c by blast
  qed
  show ?thesis using u main by blast
qed

theorem regex_only_on_text_columns_witness:
  "rectangular [(''name'', \<lparr>dtype = pl_String, cells = [Some (StrCell ''bab''), None, Some (StrCell ''c'')]\<rparr>)] \<and>
   distinct (map fst [(''name'', no_props\<lparr>prop_regex := Some ''a''\<rparr>)]) \<and>
   (''name'', no_props\<lparr>prop_regex := Some ''a''\<rparr>) \<in> set [(''name'', no_props\<lparr>prop_regex := Some ''a''\<rparr>)] \<and>
   validate cell_backend [(''name'', no_props\<lparr>prop_regex := Some ''a''\<rparr>)]
        [(''name'', \<lparr>dtype = pl_String, cells = [Some (StrCell ''bab''), None, Some (StrCell ''c'')]\<rparr>)] =
     Inr [\<lparr>variable = ''name'', check = ''Regex'',
           description = ''1 rows mismatch pattern '' @ quoted ''a'', examples = ''c''\<rparr>] \<and>
   map_of [(''name'', \<lparr>dtype = pl_String, cells = [Some (StrCell ''bab''), None, Some (StrCell ''c'')]\<rparr>)] ''name'' =
     Some \<lparr>dtype = pl_String, cells = [Some (StrCell ''bab''), None, Some (StrCell ''c'')]\<rparr> \<and>
   filter (\<lambda>f. check f = ''Regex'' \<and> variable f = ''name'')
     [\<lparr>variable = ''name'', check = ''Regex'',
       description = ''1 rows mismatch pattern '' @ quoted ''a'', examples = ''c''\<rparr>] =
     (let bad = filter (\<lambda>v. case v of None \<Rightarrow> False | Some x \<Rightarrow> cell_found ''a'' x = Some False)
                  [Some (StrCell ''bab''), None, Some (StrCell ''c'')]
      in if bad = [] then []
         else [\<lparr>variable = ''name'', check = ''Regex'',
                description = str_nat (length bad) @ '' rows mismatch pattern '' @ quoted ''a'',
                examples = get_example_msg cell_backend
                  [(''name'', \<lparr>dtype = pl_String, cells = bad\<rparr>)] ''name''\<rparr>])"
proof -
  let ?s = "\<lparr>dtype = pl_String, cells = [Some (StrCell ''bab''), None, Some (StrCell ''c'')]\<rparr>"
  let ?df = "[(''name'', ?s)]"
  let ?p = "no_props\<lparr>prop_regex := Some ''a''\<rparr>"
  let ?sch = "[(''name'', ?p)]"
  let ?report = "[\<lparr>variable = ''name'', check = ''Regex'',
           description = ''1 rows mismatch pattern '' @ quoted ''a'', examples = ''c''\<rparr>]"
  have h1: "rectangular ?df" by (simp add: rectangular_def)
  have h2: "distinct (map fst ?sch)" by simp
  have h3: "(''name'', ?p) \<in> set ?sch" by simp
  have h4: "validate cell_backend ?sch ?df = Inr ?report"
    by (auto simp add: validate_eval cell_backend_eval str_nat_digits)
  have h5: "map_of ?df ''name'' = Some ?s \<and> dtype ?s = pl_String \<and> prop_regex ?p = Some ''a''"
    by (simp add: no_props_def)
  have c: "pl_str_contains cell_backend ''a'' = Inr (cell_found ''a'')"
    by (simp add: cell_backend_eval)
  from regex_only_on_text_columns [OF h1 h2 h3, of cell_backend] h4 h5
  obtain found where f: "pl_str_contains cell_backend ''a'' = Inr found"
     "filter (\<lambda>f. check f = ''Regex'' \<and> variable f = ''name'') ?report =
          (let bad = filter (\<lambda>v. case v of None \<Rightarrow> False | Some x \<Rightarrow> found x = Some False) (cells ?s)
           in if bad = [] then []
              else [\<lparr>variable = ''name'', check = ''Regex'',
                     description = str_nat (length bad) @ '' rows mismatch pattern '' @ quoted ''a'',
                     examples = get_example_msg cell_backend [(''name'', ?s\<lparr>cells := bad\<rparr>)] ''name''\<rparr>])"
    by blast
  have "found = cell_found ''a''" using f(1) c by simp
  then show ?thesis using h1 h2 h3 h4 h5 f(2) by simp
qed

text \<open>
  Claim C4, at an \<open>Int64\<close> column with the cells 25, null and 200. With the whitelist
  \<^verbatim>\<open>[1, "25"]\<close> and the blacklist \<^verbatim>\<open>[200]\<close>: the whitelist holds a text, so the column is
  cast to text, but the list goes to \<^verbatim>\<open>is_in\<close> as it stands, an integer beside a text.
  \<^verbatim>\<open>is_in\<close> raises \<open>TypeError\<close>, \<open>validate\<close> returns no report, and the blacklist check of
  the column is never run; with the blacklist alone the report has its
  \<open>Forbidden Values\<close> finding. With the whitelist \<^verbatim>\<open>["25"]\<close>, all text, the cells are
  compared as text: 25 is allowed and 200 is the one invalid value.
\<close>

theorem mixed_list_raises_type_error:
  "validate cell_backend
     [(''age'', no_props\<lparr>prop_allowed_value := Some [LInt 1, LStr ''25''],
                          prop_not_allowed_value := Some [LInt 200]\<rparr>)]
     [(''age'', \<lparr>dtype = pl_Int64, cells = [Some (IntCell 25), None, Some (IntCell 200)]\<rparr>)] =
     Inl TypeError
   \<and> validate cell_backend
     [(''age'', no_props\<lparr>prop_not_allowed_value := Some [LInt 200]\<rparr>)]
     [(''age'', \<lparr>dtype = pl_Int64, cells = [Some (IntCell 25), None, Some (IntCell 200)]\<rparr>)] =
     Inr [\<lparr>variable = ''age'', check = ''Forbidden Values'',
           description = ''1 rows found in blacklist'', examples = ''200''\<rparr>]
   \<and> validate cell_backend
     [(''age'', no_props\<lparr>prop_allowed_value := Some [LStr ''25'']\<rparr>)]
     [(''age'', \<lparr>dtype = pl_Int64, cells = [Some (IntCell 25), None, Some (IntCell 200)]\<rparr>)] =
     Inr [\<lparr>variable = ''age'', check = ''Allowed Values'',
           description = ''1 rows have invalid values'', examples = ''200''\<rparr>]"
  by (auto simp add: validate_eval cell_backend_eval str_nat_digits str_int_samples)

section \<open>Null cells\<close>

lemma null_never_selected:
  "range_expr P dt low high = Inr predicate \<Longrightarrow> predicate None = None"
  "allowed_expr P allowed dt = Inr predicate \<Longrightarrow> predicate None = None"
  "forbidden_expr P forbidden dt = Inr predicate \<Longrightarrow> predicate None = None"
  "regex_expr P pattern = Inr predicate \<Longrightarrow> predicate None = None"
  by (auto simp: range_expr_def allowed_expr_def forbidden_expr_def regex_expr_def
      expr_lt_def expr_gt_def expr_not_def expr_is_in_def expr_str_contains_def check_expr_def
      expr_cast_string_def elementwise_def split: sum.splits if_splits prod.splits)

lemma filter_all_null:
  "list_all (\<lambda>v. v = None) xs \<Longrightarrow> predicate None \<noteq> Some True \<Longrightarrow>
   filter (\<lambda>v. predicate v = Some True) xs = []"
  by (auto simp: filter_empty_conv list_all_iff)

lemma filter_after_row_drop:
  assumes "predicate None = None" and "\<forall>v. \<not> q v \<longrightarrow> v = None"
  shows "filter (\<lambda>v. predicate v = Some True) (filter q xs) =
         filter (\<lambda>v. predicate v = Some True) xs"
proof -
  have "q v" if "predicate v = Some True" for v
    using assms that by (cases "q v") auto
  then show ?thesis by (induction xs) auto
qed

lemma checks_after_row_drop:
  assumes r: "rectangular df" and m: "map_of df col = Some s" and q: "\<forall>v. \<not> q v \<longrightarrow> v = None"
  shows "check_range P df col props s =
             check_range P (df_filter (map q (cells s)) df) col props (s\<lparr>cells := filter q (cells s)\<rparr>)"
    and "check_allowed P df col props s =
             check_allowed P (df_filter (map q (cells s)) df) col props (s\<lparr>cells := filter q (cells s)\<rparr>)"
    and "check_forbidden P df col props s =
             check_forbidden P (df_filter (map q (cells s)) df) col props (s\<lparr>cells := filter q (cells s)\<rparr>)"
    and "check_regex P df col props s =
             check_regex P (df_filter (map q (cells s)) df) col props (s\<lparr>cells := filter q (cells s)\<rparr>)"
proof -
  let ?df' = "df_filter (map q (cells s)) df"
  let ?s' = "s\<lparr>cells := filter q (cells s)\<rparr>"
  have r': "rectangular ?df'" using r by (rule rectangular_df_filter)
  have m': "map_of ?df' col = Some ?s'"
    using m by (simp add: map_of_df_filter select_rows_same)
  have e: "filter (\<lambda>v. q v \<and> predicate v = Some True) (cells s) =
           filter (\<lambda>v. predicate v = Some True) (cells s)" if "predicate None = None" for predicate
    using filter_after_row_drop [of predicate q, OF that q] by simp
  show "check_range P df col props s = check_range P ?df' col props ?s'"
    by (simp add: check_range_eq [OF r m] check_range_eq [OF r' m'] e null_never_selected
        split: option.splits prod.splits sum.splits)
  show "check_allowed P df col props s = check_allowed P ?df' col props ?s'"
    by (simp add: check_allowed_eq [OF r m] check_allowed_eq [OF r' m'] e null_never_selected
        split: option.splits prod.splits sum.splits)
  show "check_forbidden P df col props s = check_forbidden P ?df' col props ?s'"
    by (simp add: check_forbidden_eq [OF r m] check_forbidden_eq [OF r' m'] e null_never_selected
        split: option.splits prod.splits sum.splits)
  show "check_regex P df col props s = check_regex P ?df' col props ?s'"
    by (simp add: check_regex_eq [OF r m] check_regex_eq [OF r' m'] e null_never_selected
        split: option.splits prod.splits sum.splits)
qed

lemma all_null_no_findings:
  assumes r: "rectangular df" and m: "map_of df col = Some s"
    and n: "list_all (\<lambda>v. v = None) (cells s)"
  shows "check_range P df col props s = Inr fs \<Longrightarrow> fs = []"
    and "check_allowed P df col props s = Inr fs \<Longrightarrow> fs = []"
    and "check_forbidden P df col props s = Inr fs \<Longrightarrow> fs = []"
    and "check_regex P df col props s = Inr fs \<Longrightarrow> fs = []"
proof -
  have e: "filter (\<lambda>v. predicate v = Some True) (cells s) = []" if "predicate None = None" for predicate
    using filter_all_null [OF n, of predicate] that by simp
  show "check_range P df col props s = Inr fs \<Longrightarrow> fs = []"
    by (auto simp: check_range_eq [OF r m] e null_never_selected
        split: option.splits prod.splits sum.splits)
  show "check_allowed P df col props s = Inr fs \<Longrightarrow> fs = []"
    by (auto simp: check_allowed_eq [OF r m] e null_never_selected
        split: option.splits prod.splits sum.splits)
  show "check_forbidden P df col props s = Inr fs \<Longrightarrow> fs = []"
    by (auto simp: check_forbidden_eq [OF r m] e null_never_selected
        split: option.splits prod.splits sum.splits)
  show "check_regex P df col props s = Inr fs \<Longrightarrow> fs = []"
    by (auto simp: check_regex_eq [OF r m] e null_never_selected
        split: option.splits prod.splits sum.splits if_splits)
qed

lemma non_null_selected:
  "predicate None = None \<Longrightarrow>
   filter (\<lambda>v. predicate v = Some True) xs =
   filter (\<lambda>v. case v of None \<Rightarrow> False | Some x \<Rightarrow> predicate (Some x) = Some True) xs"
  by (rule filter_cong) (auto split: option.splits)

lemma finding_of_check:
  assumes "(case e of Inl x \<Rightarrow> Inl x | Inr predicate \<Rightarrow> Inr (g predicate)) = Inr R"
  shows "\<exists>predicate. e = Inr predicate \<and> R = g predicate"
  using assms by (cases e) auto

text \<open>
  Claim C10. For a column of the table, each of the \<open>Range\<close>, \<open>Allowed Values\<close>,
  \<open>Forbidden Values\<close> and \<open>Regex\<close> checks gives the same result (the same findings, or
  the same exception) on the table without the rows where the column is null. In every
  report that \<open>validate\<close> returns, the findings of the four checks for the column are
  what the checks return, and are, each, none when the predicate of the check is true at
  no non-null cell, and otherwise the one finding that counts the non-null cells at which
  it is true, with the examples taken from these cells: a row with a null in the checked
  column is never among the invalid rows. When the column holds only nulls, the report
  has no finding of the four checks for it.

  This rests on the null semantics of Polars as \<open>elementwise\<close>, \<open>expr_or\<close>, \<open>expr_not\<close>
  and \<open>mask_of\<close> have it: an element-wise operation gives null at a null cell, and
  \<^verbatim>\<open>df.filter\<close> keeps the rows where the predicate is true.
\<close>

theorem null_rows_are_never_invalid:
  assumes r: "rectangular df" and d: "distinct (map fst sch)" and i: "(col, props) \<in> set sch"
    and m: "map_of df col = Some s"
  shows
   "(let df' = df_filter (map (\<lambda>v. v \<noteq> None) (cells s)) df;
         s' = s\<lparr>cells := filter (\<lambda>v. v \<noteq> None) (cells s)\<rparr>
     in check_range P df col props s = check_range P df' col props s' \<and>
        check_allowed P df col props s = check_allowed P df' col props s' \<and>
        check_forbidden P df col props s = check_forbidden P df' col props s' \<and>
        check_regex P df col props s = check_regex P df' col props s')
    \<and> (\<forall>report. validate P sch df = Inr report \<longrightarrow>
      check_range P df col props s =
        Inr (filter (\<lambda>f. check f = ''Range'' \<and> variable f = col) report) \<and>
      check_allowed P df col props s =
        Inr (filter (\<lambda>f. check f = ''Allowed Values'' \<and> variable f = col) report) \<and>
      check_forbidden P df col props s =
        Inr (filter (\<lambda>f. check f = ''Forbidden Values'' \<and> variable f = col) report) \<and>
      check_regex P df col props s =
        Inr (filter (\<lambda>f. check f = ''Regex'' \<and> variable f = col) report)
    \<and> (\<forall>low high. prop_range props = Some (low, high) \<longrightarrow>
      (\<exists>predicate. range_expr P (dtype s) low high = Inr predicate \<and>
         filter (\<lambda>f. check f = ''Range'' \<and> variable f = col) report =
           (let bad = filter (\<lambda>v. case v of None \<Rightarrow> False
                                    | Some x \<Rightarrow> predicate (Some x) = Some True) (cells s)
            in if bad = [] then []
               else [\<lparr>variable = col, check = ''Range'',
                      description = str_nat (length bad) @ '' rows outside ['' @ str_lit low @
                                    '', '' @ str_lit high @ '']'',
                      examples = get_example_msg P [(col, s\<lparr>cells := bad\<rparr>)] col\<rparr>])))
    \<and> (\<forall>allowed. prop_allowed_value props = Some allowed \<longrightarrow>
      (\<exists>predicate. allowed_expr P allowed (dtype s) = Inr predicate \<and>
         filter (\<lambda>f. check f = ''Allowed Values'' \<and> variable f = col) report =
           (let bad = filter (\<lambda>v. case v of None \<Rightarrow> False
                                    | Some x \<Rightarrow> predicate (Some x) = Some True) (cells s)
            in if bad = [] then []
               else [\<lparr>variable = col, check = ''Allowed Values'',
                      description = str_nat (length bad) @ '' rows have invalid values'',
                      examples = get_example_msg P [(col, s\<lparr>cells := bad\<rparr>)] col\<rparr>])))
    \<and> (\<forall>forbidden. prop_not_allowed_value props = Some forbidden \<longrightarrow>
      (\<exists>predicate. forbidden_expr P forbidden (dtype s) = Inr predicate \<and>
         filter (\<lambda>f. check f = ''Forbidden Values'' \<and> variable f = col) report =
           (let bad = filter (\<lambda>v. case v of None \<Rightarrow> False
                                    | Some x \<Rightarrow> predicate (Some x) = Some True) (cells s)
            in if bad = [] then []
               else [\<lparr>variable = col, check = ''Forbidden Values'',
                      description = str_nat (length bad) @ '' rows found in blacklist'',
                      examples = get_example_msg P [(col, s\<lparr>cells := bad\<rparr>)] col\<rparr>])))
    \<and> (\<forall>pattern. prop_regex props = Some pattern \<and> dtype s = pl_String \<longrightarrow>
      (\<exists>predicate. regex_expr P pattern = Inr predicate \<and>
         filter (\<lambda>f. check f = ''Regex'' \<and> variable f = col) report =
           (let bad = filter (\<lambda>v. case v of None \<Rightarrow> False
                                    | Some x \<Rightarrow> predicate (Some x) = Some True) (cells s)
            in if bad = [] then []
               else [\<lparr>variable = col, check = ''Regex'',
                      description = str_nat (length bad) @ '' rows mismatch pattern '' @ quoted pattern,
                      examples = get_example_msg P [(col, s\<lparr>cells := bad\<rparr>)] col\<rparr>])))
    \<and> (list_all (\<lambda>v. v = None) (cells s) \<longrightarrow>
         filter (\<lambda>f. (check f = ''Range'' \<or> check f = ''Allowed Values'' \<or>
                      check f = ''Forbidden Values'' \<or> check f = ''Regex'') \<and> variable f = col)
           report = []))"
proof -
  have u: "(let df' = df_filter (map (\<lambda>v. v \<noteq> None) (cells s)) df;
         s' = s\<lparr>cells := filter (\<lambda>v. v \<noteq> None) (cells s)\<rparr>
     in check_range P df col props s = check_range P df' col props s' \<and>
        check_allowed P df col props s = check_allowed P df' col props s' \<and>
        check_forbidden P df col props s = check_forbidden P df' col props s' \<and>
        check_regex P df col props s = check_regex P df' col props s')"
    unfolding Let_def
    using checks_after_row_drop [OF r m, of "\<lambda>v. v \<noteq> None" P props] by simp
  have main: "check_range P df col props s =
        Inr (filter (\<lambda>f. check f = ''Range'' \<and> variable f = col) report) \<and>
      check_allowed P df col props s =
        Inr (filter (\<lambda>f. check f = ''Allowed Values'' \<and> variable f = col) report) \<and>
      check_forbidden P df col props s =
        Inr (filter (\<lambda>f. check f = ''Forbidden Values'' \<and> variable f = col) report) \<and>
      check_regex P df col props s =
        Inr (filter (\<lambda>f. check f = ''Regex'' \<and> variable f = col) report)
    \<and> (\<forall>low high. prop_range props = Some (low, high) \<longrightarrow>
      (\<exists>predicate. range_expr P (dtype s) low high = Inr predicate \<and>
         filter (\<lambda>f. check f = ''Range'' \<and> variable f = col) report =
           (let bad = filter (\<lambda>v. case v of None \<Rightarrow> False
                                    | Some x \<Rightarrow> predicate (Some x) = Some True) (cells s)
            in if bad = [] then []
               else [\<lparr>variable = col, check = ''Range'',
                      description = str_nat (length bad) @ '' rows outside ['' @ str_lit low @
                                    '', '' @ str_lit high @ '']'',
                      examples = get_example_msg P [(col, s\<lparr>cells := bad\<rparr>)] col\<rparr>])))
    \<and> (\<forall>allowed. prop_allowed_value props = Some allowed \<longrightarrow>
      (\<exists>predicate. allowed_expr P allowed (dtype s) = Inr predicate \<and>
         filter (\<lambda>f. check f = ''Allowed Values'' \<and> variable f = col) report =
           (let bad = filter (\<lambda>v. case v of None \<Rightarrow> False
                                    | Some x \<Rightarrow> predicate (Some x) = Some True) (cells s)
            in if bad = [] then []
               else [\<lparr>variable = col, check = ''Allowed Values'',
                      description = str_nat (length bad) @ '' rows have invalid values'',
                      examples = get_example_msg P [(col, s\<lparr>cells := bad\<rparr>)] col\<rparr>])))
    \<and> (\<forall>forbidden. prop_not_allowed_value props = Some forbidden \<longrightarrow>
      (\<exists>predicate. forbidden_expr P forbidden (dtype s) = Inr predicate \<and>
         filter (\<lambda>f. check f = ''Forbidden Values'' \<and> variable f = col) report =
           (let bad = filter (\<lambda>v. case v of None \<Rightarrow> False
                                    | Some x \<Rightarrow> predicate (Some x) = Some True) (cells s)
            in if bad = [] then []
               else [\<lparr>variable = col, check = ''Forbidden Values'',
                      description = str_nat (length bad) @ '' rows found in blacklist'',
                      examples = get_example_msg P [(col, s\<lparr>cells := bad\<rparr>)] col\<rparr>])))
    \<and> (\<forall>pattern. prop_regex props = Some pattern \<and> dtype s = pl_String \<longrightarrow>
      (\<exists>predicate. regex_expr P pattern = Inr predicate \<and>
         filter (\<lambda>f. check f = ''Regex'' \<and> variable f = col) report =
           (let bad = filter (\<lambda>v. case v of None \<Rightarrow> False
                                    | Some x \<Rightarrow> predicate (Some x) = Some True) (cells s)
            in if bad = [] then []
               else [\<lparr>variable = col, check = ''Regex'',
                      description = str_nat (length bad) @ '' rows mismatch pattern '' @ quoted pattern,
                      examples = get_example_msg P [(col, s\<lparr>cells := bad\<rparr>)] col\<rparr>])))
    \<and> (list_all (\<lambda>v. v = None) (cells s) \<longrightarrow>
         filter (\<lambda>f. (check f = ''Range'' \<or> check f = ''Allowed Values'' \<or>
                      check f = ''Forbidden Values'' \<or> check f = ''Regex'') \<and> variable f = col)
           report = [])"
    if v: "validate P sch df = Inr report" for report
  proof -
    let ?R = "\<lambda>name. filter (\<lambda>f. check f = name \<and> variable f = col) report"
    have by_name: "\<exists>fs. validate_column P df (col, props) = Inr fs \<and> ?R name = filter (\<lambda>f. check f = name) fs"
      for name
      using report_for_column [OF d i v, of "\<lambda>f. check f = name"] by blast
    have c1: "check_range P df col props s = Inr (?R ''Range'')"
      using by_name [of "''Range''"] validate_column_by_check(1) [OF m] by auto
    have c2: "check_allowed P df col props s = Inr (?R ''Allowed Values'')"
      using by_name [of "''Allowed Values''"] validate_column_by_check(2) [OF m] by auto
    have c3: "check_forbidden P df col props s = Inr (?R ''Forbidden Values'')"
      using by_name [of "''Forbidden Values''"] validate_column_by_check(3) [OF m] by auto
    have c4: "check_regex P df col props s = Inr (?R ''Regex'')"
      using by_name [of "''Regex''"] validate_column_by_check(4) [OF m] by auto
    have a1: "\<exists>predicate. range_expr P (dtype s) low high = Inr predicate \<and>
           ?R ''Range'' =
             (let bad = filter (\<lambda>v. case v of None \<Rightarrow> False
                                      | Some x \<Rightarrow> predicate (Some x) = Some True) (cells s)
              in if bad = [] then []
                 else [\<lparr>variable = col, check = ''Range'',
                        description = str_nat (length bad) @ '' rows outside ['' @ str_lit low @
                                      '', '' @ str_lit high @ '']'',
                        examples = get_example_msg P [(col, s\<lparr>cells := bad\<rparr>)] col\<rparr>])"
      if h: "prop_range props = Some (low, high)" for low high
    proof -
      obtain predicate where p: "range_expr P (dtype s) low high = Inr predicate"
        "?R ''Range'' = (if filter (\<lambda>v. predicate v = Some True) (cells s) \<noteq> [] then
                       [\<lparr>variable = col, check = ''Range'',
                         description = str_nat (length (filter (\<lambda>v. predicate v = Some True) (cells s))) @
                                       '' rows outside ['' @ str_lit low @ '', '' @ str_lit high @ '']'',
                         examples = get_example_msg P
                            [(col, s\<lparr>cells := filter (\<lambda>v. predicate v = Some True) (cells s)\<rparr>)] col\<rparr>]
                     else [])"
        using c1 h finding_of_check [where e = "range_expr P (dtype s) low high" and R = "?R ''Range''"]
        unfolding check_range_eq [OF r m] by fastforce
      show ?thesis
        using p unfolding non_null_selected [of predicate, OF null_never_selected(1) [OF p(1)]]
        by (auto simp: Let_def)
    qed
    have a2: "\<exists>predicate. allowed_expr P allowed (dtype s) = Inr predicate \<and>
           ?R ''Allowed Values'' =
             (let bad = filter (\<lambda>v. case v of None \<Rightarrow> False
                                      | Some x \<Rightarrow> predicate (Some x) = Some True) (cells s)
              in if bad = [] then []
                 else [\<lparr>variable = col, check = ''Allowed Values'',
                        description = str_nat (length bad) @ '' rows have invalid values'',
                        examples = get_example_msg P [(col, s\<lparr>cells := bad\<rparr>)] col\<rparr>])"
      if h: "prop_allowed_value props = Some allowed" for allowed
    proof -
      obtain predicate where p: "allowed_expr P allowed (dtype s) = Inr predicate"
        "?R ''Allowed Values'' = (if filter (\<lambda>v. predicate v = Some True) (cells s) \<noteq> [] then
                       [\<lparr>variable = col, check = ''Allowed Values'',
                         description = str_nat (length (filter (\<lambda>v. predicate v = Some True) (cells s))) @
                                       '' rows have invalid values'',
                         examples = get_example_msg P
                            [(col, s\<lparr>cells := filter (\<lambda>v. predicate v = Some True) (cells s)\<rparr>)] col\<rparr>]
                     else [])"
        using c2 h finding_of_check [where e = "allowed_expr P allowed (dtype s)" and R = "?R ''Allowed Values''"]
        unfolding check_allowed_eq [OF r m] by fastforce
      show ?thesis
        using p unfolding non_null_selected [of predicate, OF null_never_selected(2) [OF p(1)]]
        by (auto simp: Let_def)
    qed
    have a3: "\<exists>predicate. forbidden_expr P forbidden (dtype s) = Inr predicate \<and>
           ?R ''Forbidden Values'' =
             (let bad = filter (\<lambda>v. case v of None \<Rightarrow> False
                                      | Some x \<Rightarrow> predicate (Some x) = Some True) (cells s)
              in if bad = [] then []
                 else [\<lparr>variable = col, check = ''Forbidden Values'',
                        description = str_nat (length bad) @ '' rows found in blacklist'',
                        examples = get_example_msg P [(col, s\<lparr>cells := bad\<rparr>)] col\<rparr>])"
      if h: "prop_not_allowed_value props = Some forbidden" for forbidden
    proof -
      obtain predicate where p: "forbidden_expr P forbidden (dtype s) = Inr predicate"
        "?R ''Forbidden Values'' = (if filter (\<lambda>v. predicate v = Some True) (cells s) \<noteq> [] then
                       [\<lparr>variable = col, check = ''Forbidden Values'',
                         description = str_nat (length (filter (\<lambda>v. predicate v = Some True) (cells s))) @
                                       '' rows found in blacklist'',
                         examples = get_example_msg P
                            [(col, s\<lparr>cells := filter (\<lambda>v. predicate v = Some True) (cells s)\<rparr>)] col\<rparr>]
                     else [])"
        using c3 h finding_of_check [where e = "forbidden_expr P forbidden (dtype s)" and R = "?R ''Forbidden Values''"]
        unfolding check_forbidden_eq [OF r m] by fastforce
      show ?thesis
        using p unfolding non_null_selected [of predicate, OF null_never_selected(3) [OF p(1)]]
        by (auto simp: Let_def)
    qed
    have a4: "\<exists>predicate. regex_expr P pattern = Inr predicate \<and>
           ?R ''Regex'' =
             (let bad = filter (\<lambda>v. case v of None \<Rightarrow> False
                                      | Some x \<Rightarrow> predicate (Some x) = Some True) (cells s)
              in if bad = [] then []
                 else [\<lparr>variable = col, check = ''Regex'',
                        description = str_nat (length bad) @ '' rows mismatch pattern '' @ quoted pattern,
                        examples = get_example_msg P [(col, s\<lparr>cells := bad\<rparr>)] col\<rparr>])"
      if h: "prop_regex props = Some pattern" "dtype s = pl_String" for pattern
    proof -
      obtain predicate where p: "regex_expr P pattern = Inr predicate"
        "?R ''Regex'' = (if filter (\<lambda>v. predicate v = Some True) (cells s) \<noteq> [] then
                       [\<lparr>variable = col, check = ''Regex'',
                         description = str_nat (length (filter (\<lambda>v. predicate v = Some True) (cells s))) @
                                       '' rows mismatch pattern '' @ quoted pattern,
                         examples = get_example_msg P
                            [(col, s\<lparr>cells := filter (\<lambda>v. predicate v = Some True) (cells s)\<rparr>)] col\<rparr>]
                     else [])"
        using c4 h finding_of_check [where e = "regex_expr P pattern" and R = "?R ''Regex''"]
        unfolding check_regex_eq [OF r m] by fastforce
      show ?thesis
        using p unfolding non_null_selected [of predicate, OF null_never_selected(4) [OF p(1)]]
        by (auto simp: Let_def)
    qed
    have e: "filter (\<lambda>f. (check f = ''Range'' \<or> check f = ''Allowed Values'' \<or>
                        check f = ''Forbidden Values'' \<or> check f = ''Regex'') \<and> variable f = col)
             report = []"
      if n: "list_all (\<lambda>v. v = None) (cells s)"
    proof -
      have "?R ''Range'' = []" "?R ''Allowed Values'' = []" "?R ''Forbidden Values'' = []" "?R ''Regex'' = []"
        using all_null_no_findings [OF r m n] c1 c2 c3 c4 by blast+
      then show ?thesis
        unfolding filter_empty_conv by blast
    qed
    show ?thesis using c1 c2 c3 c4 a1 a2 a3 a4 e by blast
  qed
  show ?thesis using u main by blast
qed

theorem null_rows_are_never_invalid_witness:
  "rectangular
     [(''age'', \<lparr>dtype = pl_Int64,
         cells = [Some (IntCell (- 5)), None, Some (IntCell 200), Some (IntCell 25)]\<rparr>),
      (''name'', \<lparr>dtype = pl_String,
         cells = [None, Some (StrCell ''bab''), Some (StrCell ''c''), Some (StrCell ''ab'')]\<rparr>)] \<and>
   distinct (map fst
     [(''age'', no_props\<lparr>prop_range := Some (LInt 0, LInt 120), prop_allowed_value := Some [LInt 25],
                          prop_not_allowed_value := Some [LInt 200]\<rparr>),
      (''name'', no_props\<lparr>prop_regex := Some ''a''\<rparr>)]) \<and>
   validate cell_backend
     [(''age'', no_props\<lparr>prop_range := Some (LInt 0, LInt 120), prop_allowed_value := Some [LInt 25],
                          prop_not_allowed_value := Some [LInt 200]\<rparr>),
      (''name'', no_props\<lparr>prop_regex := Some ''a''\<rparr>)]
     [(''age'', \<lparr>dtype = pl_Int64,
         cells = [Some (IntCell (- 5)), None, Some (IntCell 200), Some (IntCell 25)]\<rparr>),
      (''name'', \<lparr>dtype = pl_String,
         cells = [None, Some (StrCell ''bab''), Some (StrCell ''c''), Some (StrCell ''ab'')]\<rparr>)] =
     Inr [\<lparr>variable = ''age'', check = ''Range'', description = ''2 rows outside [0, 120]'',
            examples = ''-5, 200''\<rparr>,
          \<lparr>variable = ''age'', check = ''Allowed Values'', description = ''2 rows have invalid values'',
            examples = ''-5, 200''\<rparr>,
          \<lparr>variable = ''age'', check = ''Forbidden Values'', description = ''1 rows found in blacklist'',
            examples = ''200''\<rparr>,
          \<lparr>variable = ''name'', check = ''Regex'',
            description = ''1 rows mismatch pattern '' @ quoted ''a'', examples = ''c''\<rparr>] \<and>
   df_filter (map (\<lambda>v. v \<noteq> None) [Some (IntCell (- 5)), None, Some (IntCell 200), Some (IntCell 25)])
     [(''age'', \<lparr>dtype = pl_Int64,
         cells = [Some (IntCell (- 5)), None, Some (IntCell 200), Some (IntCell 25)]\<rparr>),
      (''name'', \<lparr>dtype = pl_String,
         cells = [None, Some (StrCell ''bab''), Some (StrCell ''c''), Some (StrCell ''ab'')]\<rparr>)] =
     [(''age'', \<lparr>dtype = pl_Int64, cells = [Some (IntCell (- 5)), Some (IntCell 200), Some (IntCell 25)]\<rparr>),
      (''name'', \<lparr>dtype = pl_String, cells = [None, Some (StrCell ''c''), Some (StrCell ''ab'')]\<rparr>)] \<and>
   check_range cell_backend
     [(''age'', \<lparr>dtype = pl_Int64, cells = [Some (IntCell (- 5)), Some (IntCell 200), Some (IntCell 25)]\<rparr>),
      (''name'', \<lparr>dtype = pl_String, cells = [None, Some (StrCell ''c''), Some (StrCell ''ab'')]\<rparr>)]
     ''age''
     (no_props\<lparr>prop_range := Some (LInt 0, LInt 120), prop_allowed_value := Some [LInt 25],
                prop_not_allowed_value := Some [LInt 200]\<rparr>)
     \<lparr>dtype = pl_Int64, cells = [Some (IntCell (- 5)), Some (IntCell 200), Some (IntCell 25)]\<rparr> =
     Inr [\<lparr>variable = ''age'', check = ''Range'', description = ''2 rows outside [0, 120]'',
            examples = ''-5, 200''\<rparr>] \<and>
   check_allowed cell_backend
     [(''age'', \<lparr>dtype = pl_Int64, cells = [Some (IntCell (- 5)), Some (IntCell 200), Some (IntCell 25)]\<rparr>),
      (''name'', \<lparr>dtype = pl_String, cells = [None, Some (StrCell ''c''), Some (StrCell ''ab'')]\<rparr>)]
     ''age''
     (no_props\<lparr>prop_range := Some (LInt 0, LInt 120), prop_allowed_value := Some [LInt 25],
                prop_not_allowed_value := Some [LInt 200]\<rparr>)
     \<lparr>dtype = pl_Int64, cells = [Some (IntCell (- 5)), Some (IntCell 200), Some (IntCell 25)]\<rparr> =
     Inr [\<lparr>variable = ''age'', check = ''Allowed Values'', description = ''2 rows have invalid values'',
            examples = ''-5, 200''\<rparr>] \<and>
   check_forbidden cell_backend
     [(''age'', \<lparr>dtype = pl_Int64, cells = [Some (IntCell (- 5)), Some (IntCell 200), Some (IntCell 25)]\<rparr>),
      (''name'', \<lparr>dtype = pl_String, cells = [None, Some (StrCell ''c''), Some (StrCell ''ab'')]\<rparr>)]
     ''age''
     (no_props\<lparr>prop_range := Some (LInt 0, LInt 120), prop_allowed_value := Some [LInt 25],
                prop_not_allowed_value := Some [LInt 200]\<rparr>)
     \<lparr>dtype = pl_Int64, cells = [Some (IntCell (- 5)), Some (IntCell 200), Some (IntCell 25)]\<rparr> =
     Inr [\<lparr>variable = ''age'', check = ''Forbidden Values'', description = ''1 rows found in blacklist'',
            examples = ''200''\<rparr>]"
proof -
  let ?s = "\<lparr>dtype = pl_Int64,
         cells = [Some (IntCell (- 5)), None, Some (IntCell 200), Some (IntCell 25)]\<rparr>"
  let ?df = "[(''age'', ?s),
      (''name'', \<lparr>dtype = pl_String,
         cells = [None, Some (StrCell ''bab''), Some (StrCell ''c''), Some (StrCell ''ab'')]\<rparr>)]"
  let ?p = "no_props\<lparr>prop_range := Some (LInt 0, LInt 120), prop_allowed_value := Some [LInt 25],
                          prop_not_allowed_value := Some [LInt 200]\<rparr>"
  let ?sch = "[(''age'', ?p), (''name'', no_props\<lparr>prop_regex := Some ''a''\<rparr>)]"
  let ?report = "[\<lparr>variable = ''age'', check = ''Range'', description = ''2 rows outside [0, 120]'',
            examples = ''-5, 200''\<rparr>,
          \<lparr>variable = ''age'', check = ''Allowed Values'', description = ''2 rows have invalid values'',
            examples = ''-5, 200''\<rparr>,
          \<lparr>variable = ''age'', check = ''Forbidden Values'', description = ''1 rows found in blacklist'',
            examples = ''200''\<rparr>,
          \<lparr>variable = ''name'', check = ''Regex'',
            description = ''1 rows mismatch pattern '' @ quoted ''a'', examples = ''c''\<rparr>]"
  let ?df' = "[(''age'', \<lparr>dtype = pl_Int64, cells = [Some (IntCell (- 5)), Some (IntCell 200), Some (IntCell 25)]\<rparr>),
      (''name'', \<lparr>dtype = pl_String, cells = [None, Some (StrCell ''c''), Some (StrCell ''ab'')]\<rparr>)]"
  have h1: "rectangular ?df" by (simp add: rectangular_def)
  have h2: "distinct (map fst ?sch)" by simp
  have h3: "(''age'', ?p) \<in> set ?sch" by simp
  have h4: "map_of ?df ''age'' = Some ?s" by simp
  have h5: "validate cell_backend ?sch ?df = Inr ?report"
    by (auto simp add: validate_eval cell_backend_eval str_nat_digits str_int_samples)
  have dr: "df_filter (map (\<lambda>v. v \<noteq> None) (cells ?s)) ?df = ?df'"
    by (simp add: df_filter_def select_rows_def)
  have cs: "?s\<lparr>cells := filter (\<lambda>v. v \<noteq> None) (cells ?s)\<rparr> =
            \<lparr>dtype = pl_Int64, cells = [Some (IntCell (- 5)), Some (IntCell 200), Some (IntCell 25)]\<rparr>"
    by simp
  note t = null_rows_are_never_invalid [OF h1 h2 h3 h4, of cell_backend]
  from t have u: "check_range cell_backend ?df ''age'' ?p ?s =
          check_range cell_backend (df_filter (map (\<lambda>v. v \<noteq> None) (cells ?s)) ?df) ''age'' ?p
            (?s\<lparr>cells := filter (\<lambda>v. v \<noteq> None) (cells ?s)\<rparr>) \<and>
        check_allowed cell_backend ?df ''age'' ?p ?s =
          check_allowed cell_backend (df_filter (map (\<lambda>v. v \<noteq> None) (cells ?s)) ?df) ''age'' ?p
            (?s\<lparr>cells := filter (\<lambda>v. v \<noteq> None) (cells ?s)\<rparr>) \<and>
        check_forbidden cell_backend ?df ''age'' ?p ?s =
          check_forbidden cell_backend (df_filter (map (\<lambda>v. v \<noteq> None) (cells ?s)) ?df) ''age'' ?p
            (?s\<lparr>cells := filter (\<lambda>v. v \<noteq> None) (cells ?s)\<rparr>)"
    unfolding Let_def by blast
  from t h5 have c: "check_range cell_backend ?df ''age'' ?p ?s =
          Inr (filter (\<lambda>f. check f = ''Range'' \<and> variable f = ''age'') ?report) \<and>
        check_allowed cell_backend ?df ''age'' ?p ?s =
          Inr (filter (\<lambda>f. check f = ''Allowed Values'' \<and> variable f = ''age'') ?report) \<and>
        check_forbidden cell_backend ?df ''age'' ?p ?s =
          Inr (filter (\<lambda>f. check f = ''Forbidden Values'' \<and> variable f = ''age'') ?report)"
    by blast
  have k: "check_range cell_backend ?df' ''age'' ?p
        \<lparr>dtype = pl_Int64, cells = [Some (IntCell (- 5)), Some (IntCell 200), Some (IntCell 25)]\<rparr> =
          Inr (filter (\<lambda>f. check f = ''Range'' \<and> variable f = ''age'') ?report) \<and>
        check_allowed cell_backend ?df' ''age'' ?p
        \<lparr>dtype = pl_Int64, cells = [Some (IntCell (- 5)), Some (IntCell 200), Some (IntCell 25)]\<rparr> =
          Inr (filter (\<lambda>f. check f = ''Allowed Values'' \<and> variable f = ''age'') ?report) \<and>
        check_forbidden cell_backend ?df' ''age'' ?p
        \<lparr>dtype = pl_Int64, cells = [Some (IntCell (- 5)), Some (IntCell 200), Some (IntCell 25)]\<rparr> =
          Inr (filter (\<lambda>f. check f = ''Forbidden Values'' \<and> variable f = ''age'') ?report)"
    using u c unfolding dr cs by metis
  have "cells ?s = [Some (IntCell (- 5)), None, Some (IntCell 200), Some (IntCell 25)]" by simp
  then show ?thesis using h1 h2 h5 dr k by simp
qed

end
